theory Spec2Isabelle
  imports Main "HOL-Library.Word" "HOL-Library.Signed_Division"
begin

unbundle bit_operations_syntax

section \<open>OSPFS: the on-image data engine of ospfsmod.c\<close>

text \<open>
  The development embeds the functions of \<^verbatim>\<open>ospfsmod.c\<close> as HOL functions.
  Every \<^verbatim>\<open>uint32_t\<close> is a \<open>32 word\<close>, so that \<open>+\<close>, \<open>-\<close> and \<open>*\<close> wrap
  around as in C.  A function that works through a pointer to an inode takes the inode
  and returns it updated; the image is passed along as a state.
\<close>

subsection \<open>Constants of the header\<close>

text \<open>
  Modelled from the spec: the header \<^verbatim>\<open>ospfs.h\<close> is not among the sources.  The
  spec gives the block size of the reference image (1024 bytes), the number of direct
  block pointers (ND = 10) and the number of block pointers of an indirect block
  (NI = BLKSIZE / 4 = 256).  The free bitmap starts at block 2 (the spec's layout and
  the comment of \<^verbatim>\<open>allocate_block\<close>).
\<close>

definition OSPFS_BLKSIZE :: "32 word" where
  "OSPFS_BLKSIZE = 1024"

definition OSPFS_NDIRECT :: "32 word" where
  "OSPFS_NDIRECT = 10"

definition OSPFS_NINDIRECT :: "32 word" where
  "OSPFS_NINDIRECT = OSPFS_BLKSIZE div 4"

definition OSPFS_FREEMAP_BLK :: "32 word" where
  "OSPFS_FREEMAP_BLK = 2"

text \<open>
  The remaining constants of the header have no value in the spec; the functions that
  use them take them as a parameter \<open>h\<close>.
\<close>

record ospfs_h =
  OSPFS_MAXFILEBLKS :: "32 word"
  OSPFS_BLKINODES :: "32 word"
  OSPFS_DIRENTRY_SIZE :: "32 word"
  OSPFS_MAXNAMELEN :: nat
  OSPFS_MAXSYMLINKLEN :: nat
  OSPFS_FTYPE_REG :: "32 word"
  OSPFS_FTYPE_DIR :: "32 word"
  OSPFS_FTYPE_SYMLINK :: "32 word"

text \<open>
  The values used where a function is evaluated on a concrete image: a file has at most
  ND + NI + NI * NI blocks, an inode block holds 16 inodes of 64 bytes, a directory entry
  has 128 bytes, 4 of them the inode number and one the terminator of the name, and a
  symbolic link stores its target in the 52 bytes of the inode behind the first three
  fields.
\<close>

definition lab_h :: ospfs_h where
  "lab_h = \<lparr> OSPFS_MAXFILEBLKS = 65802, OSPFS_BLKINODES = 16,
     OSPFS_DIRENTRY_SIZE = 128, OSPFS_MAXNAMELEN = 123, OSPFS_MAXSYMLINKLEN = 51,
     OSPFS_FTYPE_REG = 0, OSPFS_FTYPE_DIR = 1, OSPFS_FTYPE_SYMLINK = 2 \<rparr>"

subsection \<open>Return values\<close>

text \<open>
  A function that returns 0 or a negative error number returns a \<open>status\<close>.  \<open>OOPS\<close> is
  not an error number: it marks the places where the C code dereferences a null pointer
  or leaves an array, where the kernel stops the call instead of returning.
\<close>

datatype status = OK | ENOSPC | EIO | ENOENT | EFAULT | ENAMETOOLONG | EEXIST | ENOMEM | OOPS

subsection \<open>The image\<close>

text \<open>
  \<^verbatim>\<open>ospfs_inode_t\<close>, together with the view \<^verbatim>\<open>ospfs_symlink_inode_t\<close> of the
  same record: \<open>oi_symlink\<close> is the character array of the symbolic link, by index.  In
  C the array lies over the fields from \<open>oi_mode\<close> on; the model keeps the two views
  side by side, and a store of a character writes both (\<open>inode_put_byte\<close> below).  An
  index behind the array does not stay in the inode: it is resolved in the inode table
  (\<open>inode_table_get\<close> and \<open>inode_table_put\<close> below).  A \<^verbatim>\<open>char\<close> is a byte, an
  \<open>8 word\<close>.
\<close>

record ospfs_inode =
  oi_size :: "32 word"
  oi_ftype :: "32 word"
  oi_nlink :: "32 word"
  oi_mode :: "32 word"
  oi_direct :: "nat \<Rightarrow> 32 word"
  oi_indirect :: "32 word"
  oi_indirect2 :: "32 word"
  oi_symlink :: "nat \<Rightarrow> 8 word"

text \<open>
  The image \<^verbatim>\<open>ospfs_data\<close> by its regions: the three fields of the superblock the
  code reads, the free bitmap as the \<^verbatim>\<open>uint32_t\<close> array that the bit vector
  operations work on, the inode table as the array of inodes behind
  \<^verbatim>\<open>ospfs_block(os_firstinob)\<close>, and the bytes of the image, by byte offset, for
  every access through \<^verbatim>\<open>ospfs_block\<close>.  The model therefore covers the images in
  which no block number of a file leads into the bitmap or the inode table; what is
  proved for every image is proved of functions that only read it, and the functions
  that write are evaluated on images of that kind.
\<close>

record ospfs_fs =
  os_nblocks :: "32 word"
  os_ninodes :: "32 word"
  os_firstinob :: "32 word"
  freemap :: "nat \<Rightarrow> 32 word"
  inodes :: "nat \<Rightarrow> ospfs_inode"
  ospfs_data :: "nat \<Rightarrow> 8 word"

subsection \<open>Bit vector operations\<close>

text \<open>
  The index is an \<^verbatim>\<open>int\<close> in C; every caller passes a block number, which is read
  here as the unsigned number it is (for a block number of 2^31 or more the C code
  shifts by a negative amount, which is undefined).
\<close>

definition bitvector_set :: "(nat \<Rightarrow> 32 word) \<Rightarrow> 32 word \<Rightarrow> (nat \<Rightarrow> 32 word)" where
  "bitvector_set vector i =
     vector(unat i div 32 := vector (unat i div 32) OR push_bit (unat i mod 32) 1)"

definition bitvector_clear :: "(nat \<Rightarrow> 32 word) \<Rightarrow> 32 word \<Rightarrow> (nat \<Rightarrow> 32 word)" where
  "bitvector_clear vector i =
     vector(unat i div 32 := vector (unat i div 32) AND NOT (push_bit (unat i mod 32) 1))"

definition bitvector_test :: "(nat \<Rightarrow> 32 word) \<Rightarrow> 32 word \<Rightarrow> bool" where
  "bitvector_test vector i \<longleftrightarrow>
     vector (unat i div 32) AND push_bit (unat i mod 32) 1 \<noteq> 0"

subsection \<open>Helper functions\<close>

definition ospfs_size2nblocks :: "32 word \<Rightarrow> 32 word" where
  "ospfs_size2nblocks sz = (sz + OSPFS_BLKSIZE - 1) div OSPFS_BLKSIZE"

text \<open>
  \<^verbatim>\<open>ospfs_block(blockno)\<close> is the address \<^verbatim>\<open>&ospfs_data[blockno * OSPFS_BLKSIZE]\<close>;
  the product is a \<^verbatim>\<open>uint32_t\<close>.  The address is never null.
\<close>

definition ospfs_block :: "32 word \<Rightarrow> nat" where
  "ospfs_block blockno = unat (blockno * OSPFS_BLKSIZE)"

text \<open>
  Reading and writing a \<^verbatim>\<open>uint32_t\<close> at a byte offset of the image (little endian,
  as on the x86 machines of the lab), and \<^verbatim>\<open>p[i]\<close> for a \<^verbatim>\<open>uint32_t *p\<close>.
\<close>

definition get32 :: "(nat \<Rightarrow> 8 word) \<Rightarrow> nat \<Rightarrow> 32 word" where
  "get32 d a = ucast (d a) OR push_bit 8 (ucast (d (a + 1)))
     OR push_bit 16 (ucast (d (a + 2))) OR push_bit 24 (ucast (d (a + 3)))"

definition put32 :: "(nat \<Rightarrow> 8 word) \<Rightarrow> nat \<Rightarrow> 32 word \<Rightarrow> (nat \<Rightarrow> 8 word)" where
  "put32 d a v = d(a := ucast v, a + 1 := ucast (drop_bit 8 v),
     a + 2 := ucast (drop_bit 16 v), a + 3 := ucast (drop_bit 24 v))"

definition slot_get :: "ospfs_fs \<Rightarrow> nat \<Rightarrow> 32 word \<Rightarrow> 32 word" where
  "slot_get s p i = get32 (ospfs_data s) (p + 4 * unat i)"

definition slot_set :: "ospfs_fs \<Rightarrow> nat \<Rightarrow> 32 word \<Rightarrow> 32 word \<Rightarrow> ospfs_fs" where
  "slot_set s p i v = s\<lparr>ospfs_data := put32 (ospfs_data s) (p + 4 * unat i) v\<rparr>"

text \<open>\<^verbatim>\<open>memset(p, 0, OSPFS_BLKSIZE)\<close>\<close>

definition memset_zero :: "ospfs_fs \<Rightarrow> nat \<Rightarrow> ospfs_fs" where
  "memset_zero s p =
     s\<lparr>ospfs_data := (\<lambda>a. if p \<le> a \<and> a < p + unat OSPFS_BLKSIZE then 0 else ospfs_data s a)\<rparr>"

subsection \<open>Free-block bitmap operations\<close>

text \<open>
  The loop of \<^verbatim>\<open>allocate_block\<close>, from the index \<open>i\<close> on: the first free block at or
  after \<open>i\<close> is marked allocated and returned, 0 when there is none.
\<close>

function allocate_block_from :: "ospfs_fs \<Rightarrow> 32 word \<Rightarrow> 32 word \<times> ospfs_fs" where
  "allocate_block_from s i =
     (if i < os_nblocks s then
        (if bitvector_test (freemap s) i
         then (i, s\<lparr>freemap := bitvector_clear (freemap s) i\<rparr>)
         else allocate_block_from s (i + 1))
      else (0, s))"
  by pat_completeness auto
termination
proof (relation "measure (\<lambda>(s, i). unat (os_nblocks s) - unat i)")
  show "wf (measure (\<lambda>(s, i). unat (os_nblocks s) - unat i))" by simp
next
  fix s :: ospfs_fs and i :: "32 word"
  assume "i < os_nblocks s"
  then have "unat (os_nblocks s) - unat (i + 1) < unat (os_nblocks s) - unat i"
    by unat_arith
  then show "((s, i + 1), (s, i)) \<in> measure (\<lambda>(s, i). unat (os_nblocks s) - unat i)"
    by simp
qed

declare allocate_block_from.simps [simp del]

definition allocate_block :: "ospfs_fs \<Rightarrow> 32 word \<times> ospfs_fs" where
  "allocate_block s = allocate_block_from s OSPFS_FREEMAP_BLK"

definition free_block :: "ospfs_h \<Rightarrow> ospfs_fs \<Rightarrow> 32 word \<Rightarrow> ospfs_fs" where
  "free_block h s blockno =
     (let last_inode_block = os_firstinob s + OSPFS_BLKINODES h in
      if blockno \<ge> os_ninodes s \<or> blockno \<le> last_inode_block then s
      else s\<lparr>freemap := bitvector_set (freemap s) blockno\<rparr>)"

subsection \<open>Growing and shrinking a file\<close>

text \<open>
  The three index functions return an \<^verbatim>\<open>int32_t\<close>; \<open>-1\<close> is the word of all ones.
\<close>

definition indir2_index :: "32 word \<Rightarrow> 32 word" where
  "indir2_index b = (if b < OSPFS_NDIRECT + OSPFS_NINDIRECT then - 1 else 0)"

definition indir_index :: "32 word \<Rightarrow> 32 word" where
  "indir_index b =
     (if b < OSPFS_NDIRECT then - 1
      else if indir2_index b = - 1 then 0
      else (b - (OSPFS_NDIRECT + OSPFS_NINDIRECT)) div OSPFS_NINDIRECT)"

definition direct_index :: "32 word \<Rightarrow> 32 word" where
  "direct_index b =
     (if b < OSPFS_NDIRECT then b else (b - OSPFS_NDIRECT) mod OSPFS_NINDIRECT)"

text \<open>
  The label \<^verbatim>\<open>ERR_HANDLE\<close> of \<^verbatim>\<open>add_block\<close>: the two entries of the array
  \<^verbatim>\<open>allocated\<close> are freed when they are not 0.
\<close>

definition add_block_err_handle :: "ospfs_h \<Rightarrow> ospfs_fs \<Rightarrow> 32 word \<Rightarrow> 32 word \<Rightarrow> ospfs_fs" where
  "add_block_err_handle h s allocated0 allocated1 =
     (let s = (if allocated0 \<noteq> 0 then free_block h s allocated0 else s)
      in if allocated1 \<noteq> 0 then free_block h s allocated1 else s)"

text \<open>
  The branch \<^verbatim>\<open>if(index_indir2 == 0)\<close> of \<^verbatim>\<open>add_block\<close>.  When the doubly
  indirect block already names an indirect block, the pointer \<^verbatim>\<open>indir_data\<close> is
  still null at the assignment \<^verbatim>\<open>indir_data[index_direct] = allocate_block()\<close>: the
  block is allocated and the store then hits a null pointer.
\<close>

definition add_block_indirect2 ::
  "ospfs_h \<Rightarrow> ospfs_fs \<Rightarrow> ospfs_inode \<Rightarrow> 32 word \<Rightarrow> 32 word \<Rightarrow> 32 word
     \<Rightarrow> status \<times> ospfs_fs \<times> ospfs_inode" where
  "add_block_indirect2 h s oi n index_indir index_direct =
     (let (allocated0, s) = (if oi_indirect2 oi = 0 then allocate_block s else (0, s)) in
      if oi_indirect2 oi = 0 \<and> allocated0 = 0
      then (ENOSPC, add_block_err_handle h s allocated0 0, oi)
      else
        let double_indir_block = (if oi_indirect2 oi = 0 then allocated0 else oi_indirect2 oi);
            double_indir_data = ospfs_block double_indir_block;
            s = (if oi_indirect2 oi = 0 then memset_zero s double_indir_data else s)
        in
        if slot_get s double_indir_data index_indir = 0 then
          (let (allocated1, s) = allocate_block s in
           if allocated1 = 0 then (ENOSPC, add_block_err_handle h s allocated0 allocated1, oi)
           else
             let indir_block = allocated1;
                 indir_data = ospfs_block indir_block;
                 s = memset_zero s indir_data;
                 (a, s) = allocate_block s;
                 s = slot_set s indir_data index_direct a
             in
             if a = 0 then (ENOSPC, add_block_err_handle h s allocated0 allocated1, oi)
             else
               let s = memset_zero s (ospfs_block (slot_get s indir_data index_direct));
                   oi = oi\<lparr>oi_size := (n + 1) * OSPFS_BLKSIZE\<rparr>;
                   oi = (if oi_indirect2 oi = 0 then oi\<lparr>oi_indirect2 := double_indir_block\<rparr>
                         else oi);
                   s = (if slot_get s double_indir_data index_indir = 0
                        then slot_set s double_indir_data index_indir indir_block else s)
               in (OK, s, oi))
        else
          (let (a, s) = allocate_block s in (OOPS, s, oi)))"

text \<open>
  The last branch of \<^verbatim>\<open>add_block\<close>: the block goes under the indirect block, which
  is allocated straight into \<^verbatim>\<open>oi->oi_indirect\<close> when the inode has none.
\<close>

definition add_block_indirect_data ::
  "ospfs_h \<Rightarrow> ospfs_fs \<Rightarrow> ospfs_inode \<Rightarrow> 32 word \<Rightarrow> 32 word \<Rightarrow> 32 word
     \<Rightarrow> status \<times> ospfs_fs \<times> ospfs_inode" where
  "add_block_indirect_data h s oi n indir_block index_direct =
     (let indir_data = ospfs_block indir_block;
          (a, s) = allocate_block s;
          s = slot_set s indir_data index_direct a
      in
      if a = 0 then (ENOSPC, add_block_err_handle h s 0 0, oi)
      else (OK, memset_zero s (ospfs_block (slot_get s indir_data index_direct)),
            oi\<lparr>oi_size := (n + 1) * OSPFS_BLKSIZE\<rparr>))"

definition add_block_indirect ::
  "ospfs_h \<Rightarrow> ospfs_fs \<Rightarrow> ospfs_inode \<Rightarrow> 32 word \<Rightarrow> 32 word
     \<Rightarrow> status \<times> ospfs_fs \<times> ospfs_inode" where
  "add_block_indirect h s oi n index_direct =
     (if oi_indirect oi = 0 then
        (let (a, s) = allocate_block s;
             oi = oi\<lparr>oi_indirect := a\<rparr>
         in
         if a = 0 then (ENOSPC, add_block_err_handle h s 0 0, oi)
         else
           let indir_block = oi_indirect oi;
               s = memset_zero s (ospfs_block indir_block)
           in add_block_indirect_data h s oi n indir_block index_direct)
      else add_block_indirect_data h s oi n (oi_indirect oi) index_direct)"

definition add_block :: "ospfs_h \<Rightarrow> ospfs_fs \<Rightarrow> ospfs_inode \<Rightarrow> status \<times> ospfs_fs \<times> ospfs_inode" where
  "add_block h s oi =
     (let n = ospfs_size2nblocks (oi_size oi) in
      if n = OSPFS_MAXFILEBLKS h then (ENOSPC, s, oi)
      else
        let index_indir2 = indir2_index n;
            index_indir = indir_index n;
            index_direct = direct_index n
        in
        if index_indir = - 1 then
          (if oi_direct oi (unat index_direct) \<noteq> 0 then (EIO, s, oi)
           else
             let (allocated0, s) = allocate_block s in
             if allocated0 = 0 then (ENOSPC, free_block h s allocated0, oi)
             else (OK, memset_zero s (ospfs_block allocated0),
                   oi\<lparr>oi_direct := (oi_direct oi)(unat index_direct := allocated0),
                      oi_size := (n + 1) * OSPFS_BLKSIZE\<rparr>))
        else if index_indir2 = 0 then add_block_indirect2 h s oi n index_indir index_direct
        else add_block_indirect h s oi n index_direct)"

text \<open>
  \<^verbatim>\<open>remove_block\<close>.  The pointer \<^verbatim>\<open>indir_data\<close> is an option, \<open>None\<close> for the null
  pointer: both branches assign it the address of a block, so the test
  \<^verbatim>\<open>indir_data == NULL\<close> sees \<open>Some\<close> address every time.
\<close>

definition remove_block :: "ospfs_h \<Rightarrow> ospfs_fs \<Rightarrow> ospfs_inode \<Rightarrow> status \<times> ospfs_fs \<times> ospfs_inode" where
  "remove_block h s oi =
     (let n = ospfs_size2nblocks (oi_size oi) in
      if n = 0 then (OK, s, oi)
      else
        let n = n - 1;
            index_indir2 = indir2_index n;
            index_indir = indir_index n;
            index_direct = direct_index n
        in
        if index_indir = - 1 then
          (if oi_direct oi (unat index_direct) = 0 then (EIO, s, oi)
           else (OK, free_block h s (oi_direct oi (unat index_direct)),
                 oi\<lparr>oi_direct := (oi_direct oi)(unat index_direct := 0),
                    oi_size := n * OSPFS_BLKSIZE\<rparr>))
        else if index_indir2 = 0 \<and> oi_indirect2 oi = 0 then (EIO, s, oi)
        else
          let double_indir_block = (if index_indir2 = 0 then oi_indirect2 oi else 0);
              double_indir_data = ospfs_block double_indir_block;
              indir_block = (if index_indir2 = 0 then slot_get s double_indir_data index_indir
                             else oi_indirect oi);
              indir_data = Some (ospfs_block indir_block)
          in
          (case indir_data of
             None \<Rightarrow> (EIO, s, oi)
           | Some indir_data \<Rightarrow>
               let s = free_block h s (slot_get s indir_data index_direct);
                   s = slot_set s indir_data index_direct 0;
                   oi = oi\<lparr>oi_size := n * OSPFS_BLKSIZE\<rparr>
               in
               if index_direct = 0 then
                 (let s = free_block h s indir_block;
                      (s, oi) = (if index_indir2 = - 1 then (s, oi\<lparr>oi_indirect := 0\<rparr>)
                                 else (slot_set s double_indir_data index_indir 0, oi))
                  in
                  if index_indir = 0 \<and> index_indir2 = 0
                  then (OK, free_block h s double_indir_block, oi\<lparr>oi_indirect2 := 0\<rparr>)
                  else (OK, s, oi))
               else (OK, s, oi)))"

text \<open>
  The number of blocks of a size is below 2^22, and a whole number of blocks has that
  many blocks; with the sizes that \<^verbatim>\<open>add_block\<close> and \<^verbatim>\<open>remove_block\<close> leave
  behind, this is why the two loops of \<^verbatim>\<open>change_size\<close> end.
\<close>

lemma unat_nb: "unat (ospfs_size2nblocks x) = unat (x + 1023) div 1024"
  by (simp add: ospfs_size2nblocks_def OSPFS_BLKSIZE_def unat_div) (simp add: add.commute)

lemma nb_le: "unat (ospfs_size2nblocks x) \<le> 4194303"
proof -
  have "unat (x + 1023) < 2 ^ 32" using unsigned_less [of "x + 1023"] by simp
  then show ?thesis unfolding unat_nb by simp
qed

lemma nb_mult:
  assumes "unat n \<le> 4194303"
  shows "ospfs_size2nblocks (n * OSPFS_BLKSIZE) = n"
proof -
  have m: "unat (n * 1024) = unat n * 1024"
    using assms by (simp add: unat_word_ariths)
  have "unat (n * 1024 + 1023) = unat n * 1024 + 1023"
    using assms by (simp add: unat_word_ariths(1) m)
  then have "unat (ospfs_size2nblocks (n * OSPFS_BLKSIZE)) = unat n"
    by (simp add: unat_nb OSPFS_BLKSIZE_def)
  then show ?thesis by (simp add: word_unat_eq_iff)
qed

lemma add_block_indirect_data_size:
  "add_block_indirect_data h s oi n ib idx = (OK, s', oi') \<Longrightarrow> oi_size oi' = (n + 1) * OSPFS_BLKSIZE"
  by (auto simp: add_block_indirect_data_def Let_def split: prod.splits if_splits)

lemma add_block_size:
  "add_block h s oi = (OK, s', oi') \<Longrightarrow>
     oi_size oi' = (ospfs_size2nblocks (oi_size oi) + 1) * OSPFS_BLKSIZE"
  by (auto simp: add_block_def add_block_indirect_def add_block_indirect2_def Let_def
        dest: add_block_indirect_data_size
        split: prod.splits if_splits)

lemma remove_block_size:
  "remove_block h s oi = (r, s', oi') \<Longrightarrow> r \<noteq> EIO \<Longrightarrow> ospfs_size2nblocks (oi_size oi) \<noteq> 0 \<Longrightarrow>
     oi_size oi' = (ospfs_size2nblocks (oi_size oi) - 1) * OSPFS_BLKSIZE"
  by (auto simp: remove_block_def Let_def split: prod.splits if_splits)


lemma change_size_grow_decreases:
  assumes lt: "ospfs_size2nblocks (oi_size oi) < ospfs_size2nblocks new_size"
    and ab: "add_block h s oi = (OK, s', oi')"
  shows "unat (ospfs_size2nblocks new_size) - unat (ospfs_size2nblocks (oi_size oi'))
       < unat (ospfs_size2nblocks new_size) - unat (ospfs_size2nblocks (oi_size oi))"
proof -
  let ?n = "ospfs_size2nblocks (oi_size oi)"
  have ltn: "unat ?n < unat (ospfs_size2nblocks new_size)"
    using lt by (simp add: word_less_nat_alt)
  have "unat (?n + 1) = unat ?n + 1"
    using lt by unat_arith
  moreover have "unat (ospfs_size2nblocks new_size) \<le> 4194303" by (rule nb_le)
  ultimately have n1: "unat (?n + 1) \<le> 4194303" and n1': "unat (?n + 1) = unat ?n + 1"
    using ltn by simp_all
  have "ospfs_size2nblocks (oi_size oi') = ?n + 1"
    using add_block_size [OF ab] nb_mult [OF n1] by simp
  then show ?thesis using ltn n1' by simp
qed

lemma change_size_shrink_decreases:
  assumes gt: "ospfs_size2nblocks new_size < ospfs_size2nblocks (oi_size oi)"
    and rb: "remove_block h s oi = (r, s', oi')" and r: "r \<noteq> EIO"
  shows "unat (ospfs_size2nblocks (oi_size oi')) < unat (ospfs_size2nblocks (oi_size oi))"
proof -
  let ?n = "ospfs_size2nblocks (oi_size oi)"
  have nz: "?n \<noteq> 0" using gt by unat_arith
  then have lt: "unat (?n - 1) < unat ?n" by (rule measure_unat)
  then have "unat (?n - 1) \<le> 4194303" using nb_le [of "oi_size oi"] by simp
  then have "ospfs_size2nblocks (oi_size oi') = ?n - 1"
    using remove_block_size [OF rb r nz] nb_mult by simp
  then show ?thesis using lt by simp
qed

text \<open>
  The first loop of \<^verbatim>\<open>change_size\<close>.  It is left with the status of the
  \<^verbatim>\<open>add_block\<close> that failed, and with \<open>OK\<close> when the file has the blocks it needs.
\<close>

function change_size_grow ::
  "ospfs_h \<Rightarrow> ospfs_fs \<Rightarrow> ospfs_inode \<Rightarrow> 32 word \<Rightarrow> status \<times> ospfs_fs \<times> ospfs_inode" where
  "change_size_grow h s oi new_size =
     (if ospfs_size2nblocks (oi_size oi) < ospfs_size2nblocks new_size then
        (case add_block h s oi of (r, s', oi') \<Rightarrow>
           if r = OK then change_size_grow h s' oi' new_size else (r, s', oi'))
      else (OK, s, oi))"
  by pat_completeness auto
termination
  by (relation "measure (\<lambda>(h, s, oi, new_size).
         unat (ospfs_size2nblocks new_size) - unat (ospfs_size2nblocks (oi_size oi)))")
     (auto intro: change_size_grow_decreases [OF _ sym])

text \<open>The second loop of \<^verbatim>\<open>change_size\<close>.\<close>

function change_size_shrink ::
  "ospfs_h \<Rightarrow> ospfs_fs \<Rightarrow> ospfs_inode \<Rightarrow> 32 word \<Rightarrow> status \<times> ospfs_fs \<times> ospfs_inode" where
  "change_size_shrink h s oi new_size =
     (if ospfs_size2nblocks (oi_size oi) > ospfs_size2nblocks new_size then
        (case remove_block h s oi of (r, s', oi') \<Rightarrow>
           if r = EIO then (EIO, s', oi') else change_size_shrink h s' oi' new_size)
      else (OK, s, oi))"
  by pat_completeness auto
termination
  by (relation "measure (\<lambda>(h, s, oi, new_size). unat (ospfs_size2nblocks (oi_size oi)))")
     (auto intro: change_size_shrink_decreases [OF _ sym])

declare change_size_grow.simps [simp del] change_size_shrink.simps [simp del]

definition change_size :: "ospfs_h \<Rightarrow> ospfs_fs \<Rightarrow> ospfs_inode \<Rightarrow> 32 word \<Rightarrow> status \<times> ospfs_fs \<times> ospfs_inode" where
  "change_size h s oi new_size =
     (let old_size = oi_size oi in
      case change_size_grow h s oi new_size of (r, s, oi) \<Rightarrow>
        if r = EIO \<or> r = OOPS then (r, s, oi)
        else
          let new_size = (if r = ENOSPC then old_size else new_size) in
          case change_size_shrink h s oi new_size of (r', s, oi) \<Rightarrow>
            if r' = EIO then (EIO, s, oi)
            else (r, s, oi\<lparr>oi_size := new_size\<rparr>))"

subsection \<open>Block index\<close>

definition ospfs_inode_blockno :: "ospfs_h \<Rightarrow> ospfs_fs \<Rightarrow> ospfs_inode \<Rightarrow> 32 word \<Rightarrow> 32 word" where
  "ospfs_inode_blockno h s oi offset =
     (let blockno = offset div OSPFS_BLKSIZE in
      if offset \<ge> oi_size oi \<or> oi_ftype oi = OSPFS_FTYPE_SYMLINK h then 0
      else if blockno \<ge> OSPFS_NDIRECT + OSPFS_NINDIRECT then
        (let blockoff = blockno - (OSPFS_NDIRECT + OSPFS_NINDIRECT);
             indirect2_block = ospfs_block (oi_indirect2 oi);
             indirect_block = ospfs_block (slot_get s indirect2_block (blockoff div OSPFS_NINDIRECT))
         in slot_get s indirect_block (blockoff mod OSPFS_NINDIRECT))
      else if blockno \<ge> OSPFS_NDIRECT then
        (let indirect_block = ospfs_block (oi_indirect oi)
         in slot_get s indirect_block (blockno - OSPFS_NDIRECT))
      else oi_direct oi (unat blockno))"

text \<open>The address of the byte at \<open>offset\<close> of the data of an inode.\<close>

definition ospfs_inode_data :: "ospfs_h \<Rightarrow> ospfs_fs \<Rightarrow> ospfs_inode \<Rightarrow> 32 word \<Rightarrow> nat" where
  "ospfs_inode_data h s oi offset =
     (let blockno = ospfs_inode_blockno h s oi offset
      in ospfs_block blockno + unat (offset mod OSPFS_BLKSIZE))"

text \<open>
  \<^verbatim>\<open>ospfs_inode(ino)\<close> is a pointer into the inode table, here the index of the
  inode, and \<open>None\<close> for the null pointer.
\<close>

definition ospfs_inode :: "ospfs_fs \<Rightarrow> 32 word \<Rightarrow> nat option" where
  "ospfs_inode s ino = (if ino \<ge> os_ninodes s then None else Some (unat ino))"

function find_free_inode_from :: "ospfs_fs \<Rightarrow> 32 word \<Rightarrow> 32 word" where
  "find_free_inode_from s inode_no =
     (if inode_no < os_ninodes s then
        (if oi_nlink (inodes s (unat inode_no)) = 0 then inode_no
         else find_free_inode_from s (inode_no + 1))
      else 0)"
  by pat_completeness auto
termination
proof (relation "measure (\<lambda>(s, i). unat (os_ninodes s) - unat i)")
  show "wf (measure (\<lambda>(s, i). unat (os_ninodes s) - unat i))" by simp
next
  fix s :: ospfs_fs and inode_no :: "32 word"
  assume "inode_no < os_ninodes s"
  then have "unat (os_ninodes s) - unat (inode_no + 1) < unat (os_ninodes s) - unat inode_no"
    by unat_arith
  then show "((s, inode_no + 1), (s, inode_no)) \<in> measure (\<lambda>(s, i). unat (os_ninodes s) - unat i)"
    by simp
qed

declare find_free_inode_from.simps [simp del]

definition find_free_inode :: "ospfs_fs \<Rightarrow> 32 word" where
  "find_free_inode s = find_free_inode_from s 2"

subsection \<open>Directory entries\<close>

text \<open>
  An \<^verbatim>\<open>ospfs_direntry_t *od\<close> is the byte offset of the entry in the image: the inode
  number \<^verbatim>\<open>od_ino\<close> comes first, the array \<^verbatim>\<open>od_name\<close> of
  \<open>OSPFS_MAXNAMELEN + 1\<close> characters behind it.  \<open>strlen\<close> counts the characters before
  the first 0; on a name without a 0 in its array the C function reads on, the model
  stops at the end of the array.
\<close>

definition od_ino :: "ospfs_fs \<Rightarrow> nat \<Rightarrow> 32 word" where
  "od_ino s od = get32 (ospfs_data s) od"

definition od_name :: "ospfs_h \<Rightarrow> ospfs_fs \<Rightarrow> nat \<Rightarrow> 8 word list" where
  "od_name h s od = map (\<lambda>k. ospfs_data s (od + 4 + k)) [0..<OSPFS_MAXNAMELEN h + 1]"

definition c_string :: "8 word list \<Rightarrow> 8 word list" where
  "c_string cs = takeWhile (\<lambda>c. c \<noteq> 0) cs"

definition strlen :: "8 word list \<Rightarrow> nat" where
  "strlen cs = length (c_string cs)"

definition bytes_of :: "string \<Rightarrow> 8 word list" where
  "bytes_of cs = map (\<lambda>c. of_nat (of_char c)) cs"

text \<open>
  The test of the loops that look a name up:
  \<^verbatim>\<open>od->od_ino > 0 && strlen(od->od_name) == len && memcmp(od->od_name, name, len) == 0\<close>.
\<close>

definition direntry_match :: "ospfs_h \<Rightarrow> ospfs_fs \<Rightarrow> nat \<Rightarrow> 8 word list \<Rightarrow> bool" where
  "direntry_match h s od name \<longleftrightarrow>
     od_ino s od > 0 \<and> strlen (od_name h s od) = length name
       \<and> take (length name) (od_name h s od) = name"

subsection \<open>Reading a directory\<close>

datatype d_type = DT_REG | DT_DIR | DT_LNK

text \<open>
  Of \<^verbatim>\<open>struct file\<close>: the position, the flag \<^verbatim>\<open>O_APPEND\<close>, the inode number of
  the file (\<^verbatim>\<open>f_dentry->d_inode->i_ino\<close>) and that of the parent directory.  The
  position is a \<^verbatim>\<open>loff_t\<close>, a signed number of 64 bits; a \<^verbatim>\<open>size_t\<close> has 32 bits,
  as on the 32-bit x86 kernel of the lab.
\<close>

record ospfs_file =
  f_pos :: "64 word"
  f_append :: bool
  f_ino :: "32 word"
  f_parent_ino :: "32 word"

text \<open>The \<^verbatim>\<open>switch\<close> of \<^verbatim>\<open>ospfs_dir_readdir\<close>; \<open>None\<close> is its default case.\<close>

definition readdir_file_type :: "ospfs_h \<Rightarrow> 32 word \<Rightarrow> d_type option" where
  "readdir_file_type h ftype =
     (if ftype = OSPFS_FTYPE_REG h then Some DT_REG
      else if ftype = OSPFS_FTYPE_DIR h then Some DT_DIR
      else if ftype = OSPFS_FTYPE_SYMLINK h then Some DT_LNK
      else None)"

text \<open>
  The callback \<^verbatim>\<open>filldir\<close> takes the buffer \<open>dirent\<close>, the name, its length, the
  position, the inode number and the type, and returns an \<^verbatim>\<open>int\<close> with the buffer.
  The loop over the entries is run with \<open>r = 0\<close> and \<open>ok_so_far \<ge> 0\<close>; it returns
  \<open>r\<close> (\<open>Inr 1\<close> at the end of the directory, \<open>Inr 0\<close>, or the error), the position and
  the buffer.
\<close>

type_synonym 'd filldir_t =
  "'d \<Rightarrow> 8 word list \<Rightarrow> nat \<Rightarrow> 32 word \<Rightarrow> 32 word \<Rightarrow> d_type \<Rightarrow> int \<times> 'd"





subsection \<open>Reading and writing a file\<close>

text \<open>
  The two copy functions of the kernel are parameters.  \<^verbatim>\<open>copy_to_user\<close> takes the user
  memory, the user address and the bytes, and returns the number of bytes it could not
  copy and the user memory.  \<^verbatim>\<open>copy_from_user\<close> takes the user memory, the user address
  and the number of bytes, and returns the number of bytes it could not copy and the bytes
  it has put at the destination.
\<close>

type_synonym 'u copy_to_user_t = "'u \<Rightarrow> 32 word \<Rightarrow> 8 word list \<Rightarrow> 32 word \<times> 'u"

type_synonym 'u copy_from_user_t = "'u \<Rightarrow> 32 word \<Rightarrow> 32 word \<Rightarrow> 32 word \<times> 8 word list"

definition image_bytes :: "ospfs_fs \<Rightarrow> nat \<Rightarrow> nat \<Rightarrow> 8 word list" where
  "image_bytes s a n = map (\<lambda>k. ospfs_data s (a + k)) [0..<n]"

definition store_bytes :: "ospfs_fs \<Rightarrow> nat \<Rightarrow> 8 word list \<Rightarrow> ospfs_fs" where
  "store_bytes s a bs =
     s\<lparr>ospfs_data := (\<lambda>x. if a \<le> x \<and> x < a + length bs then bs ! (x - a) else ospfs_data s x)\<rparr>"

text \<open>
  The address \<^verbatim>\<open>data + *f_pos % OSPFS_BLKSIZE\<close>.  The remainder of a \<^verbatim>\<open>loff_t\<close> is
  that of C, with the sign of the position; for a negative position the address lies
  before the block.
\<close>

definition data_at :: "nat \<Rightarrow> 64 word \<Rightarrow> nat" where
  "data_at data pos = nat (int data + sint pos smod 1024)"

lemma smod_1024_range: "- 1024 < (x::int) smod 1024 \<and> x smod 1024 < 1024"
proof -
  have r: "0 \<le> \<bar>x\<bar> mod 1024 \<and> \<bar>x\<bar> mod 1024 < 1024" by simp
  consider "x < 0" | "x = 0" | "0 < x" by linarith
  then show ?thesis
  proof cases
    case 1
    then have "x smod 1024 = - (\<bar>x\<bar> mod 1024)" by (simp add: signed_modulo_int_def)
    then show ?thesis using r by linarith
  next
    case 2
    then show ?thesis by (simp add: signed_modulo_int_def)
  next
    case 3
    then have "x smod 1024 = \<bar>x\<bar> mod 1024" by (simp add: signed_modulo_int_def)
    then show ?thesis using r by linarith
  qed
qed

lemma data_offset_not_blksize:
  "(word_of_int (x smod 1024) :: 32 word) \<noteq> 1024"
proof
  define y where "y = x smod 1024"
  assume "(word_of_int (x smod 1024) :: 32 word) = 1024"
  then have "uint (word_of_int y :: 32 word) = uint (1024 :: 32 word)"
    by (simp only: y_def)
  then have e: "take_bit 32 y = (1024::int)"
    by (simp add: uint_word_of_int_eq)
  have b: "- 1024 < y" "y < 1024" using smod_1024_range [of x] by (simp_all add: y_def)
  show False
  proof (cases "y < 0")
    case True
    have "y mod 2 ^ 32 = (y + 2 ^ 32) mod 2 ^ 32" by simp
    also have "\<dots> = y + 2 ^ 32" using True b by (intro mod_pos_pos_trivial) simp_all
    finally show False using e b by (simp add: take_bit_eq_mod)
  next
    case False
    then have "y mod 2 ^ 32 = y"
      using b by (intro mod_pos_pos_trivial) simp_all
    then show False using e b by (simp add: take_bit_eq_mod)
  qed
qed
lemma copy_step_decreases:
  fixes amount count n0 :: "32 word"
  assumes lt: "amount < count" and n0: "n0 \<noteq> 0"
  shows "unat count - unat (amount + (if n0 > count - amount then count - amount else n0))
       < unat count - unat amount"
proof -
  define n where "n = (if n0 > count - amount then count - amount else n0)"
  have l: "unat amount < unat count" using lt by (simp add: word_less_nat_alt)
  have le: "amount \<le> count" using lt by simp
  have d: "unat (count - amount) = unat count - unat amount" using le by (simp add: unat_sub)
  have nle: "unat n \<le> unat count - unat amount"
    using d by (auto simp: n_def word_less_nat_alt word_le_nat_alt not_less)
  have npos: "0 < unat n"
    using n0 l d by (auto simp: n_def unat_gt_0 word_less_nat_alt)
  have c: "unat count < 2 ^ 32" using unsigned_less [of count] by simp
  have "unat amount + unat n < 2 ^ 32"
    using nle l c by simp
  then have "unat (amount + n) = unat amount + unat n"
    by (simp add: unat_word_ariths)
  then show ?thesis using nle npos l unfolding n_def by simp
qed

lemma copy_loop_decreases:
  fixes amount count :: "32 word"
  assumes "amount < count"
  shows "unat count
       - unat (amount + (if OSPFS_BLKSIZE - word_of_int (x smod 1024) > count - amount
                         then count - amount else OSPFS_BLKSIZE - word_of_int (x smod 1024)))
       < unat count - unat amount"
proof (rule copy_step_decreases [OF assms])
  show "OSPFS_BLKSIZE - (word_of_int (x smod 1024) :: 32 word) \<noteq> 0"
    using data_offset_not_blksize [of x] by (simp add: OSPFS_BLKSIZE_def)
qed

text \<open>
  The loop of \<^verbatim>\<open>ospfs_read\<close>, run with \<open>retval = 0\<close>.  It returns the value of the
  function, the position and the user memory.
\<close>

function read_loop ::
  "ospfs_h \<Rightarrow> ospfs_fs \<Rightarrow> 'u copy_to_user_t \<Rightarrow> ospfs_inode \<Rightarrow> 32 word \<Rightarrow> 32 word \<Rightarrow> 64 word
     \<Rightarrow> 32 word \<Rightarrow> 'u \<Rightarrow> (status + 32 word) \<times> 64 word \<times> 'u" where
  "read_loop h s copy_to_user oi count amount pos buffer u =
     (if amount < count then
        (let blockno = ospfs_inode_blockno h s oi (ucast pos);
             bytes_left_to_copy = count - amount
         in
         if blockno = 0 then (Inl EIO, pos, u)
         else
           let data = ospfs_block blockno;
               data_offset = (word_of_int (sint pos smod 1024) :: 32 word);
               n = (if OSPFS_BLKSIZE - data_offset > bytes_left_to_copy
                    then bytes_left_to_copy else OSPFS_BLKSIZE - data_offset)
           in
           (case copy_to_user u buffer (image_bytes s (data_at data pos) (unat n)) of
              (uncopied, u') \<Rightarrow>
                if uncopied > 0 then (Inl EFAULT, pos, u')
                else read_loop h s copy_to_user oi count (amount + n) (pos + ucast n)
                       (buffer + n) u'))
      else (Inr amount, pos, u))"
  by pat_completeness auto
termination
  by (relation "measure (\<lambda>(h, s, c, oi, count, amount, pos, buffer, u).
         unat count - unat amount)")
     (simp_all only: wf_measure in_measure prod.case copy_loop_decreases)

declare read_loop.simps [simp del]

definition ospfs_read ::
  "ospfs_h \<Rightarrow> ospfs_fs \<Rightarrow> 'u copy_to_user_t \<Rightarrow> ospfs_file \<Rightarrow> 'u \<Rightarrow> 32 word \<Rightarrow> 32 word
     \<Rightarrow> (status + 32 word) \<times> ospfs_file \<times> 'u" where
  "ospfs_read h s copy_to_user filp u buffer count =
     (let pos = f_pos filp in
      if pos + ucast count <s pos then (Inl EIO, filp, u)
      else
        (case ospfs_inode s (f_ino filp) of
           None \<Rightarrow> (Inl OOPS, filp, u)
         | Some i \<Rightarrow>
             let oi = inodes s i;
                 count = (if ucast (oi_size oi) \<le>s pos then 0
                          else if ucast (oi_size oi) <s pos + ucast count
                          then ucast (ucast (oi_size oi) - pos)
                          else count)
             in
             (case read_loop h s copy_to_user oi count 0 pos buffer u of
                (r, pos', u') \<Rightarrow> (r, filp\<lparr>f_pos := pos'\<rparr>, u'))))"

text \<open>The loop of \<^verbatim>\<open>ospfs_write\<close>; it returns the image in place of the user memory.\<close>

function write_loop ::
  "ospfs_h \<Rightarrow> 'u copy_from_user_t \<Rightarrow> 'u \<Rightarrow> ospfs_inode \<Rightarrow> 32 word \<Rightarrow> 32 word \<Rightarrow> 64 word
     \<Rightarrow> 32 word \<Rightarrow> ospfs_fs \<Rightarrow> (status + 32 word) \<times> 64 word \<times> ospfs_fs" where
  "write_loop h copy_from_user u oi count amount pos buffer s =
     (if amount < count then
        (let blockno = ospfs_inode_blockno h s oi (ucast pos);
             bytes_left_to_copy = count - amount
         in
         if blockno = 0 then (Inl EIO, pos, s)
         else
           let data = ospfs_block blockno;
               data_offset = (word_of_int (sint pos smod 1024) :: 32 word);
               n = (if OSPFS_BLKSIZE - data_offset > bytes_left_to_copy
                    then bytes_left_to_copy else OSPFS_BLKSIZE - data_offset)
           in
           (case copy_from_user u buffer n of
              (uncopied, bytes) \<Rightarrow>
                let s = store_bytes s (data_at data pos) bytes in
                if uncopied > 0 then (Inl EFAULT, pos, s)
                else write_loop h copy_from_user u oi count (amount + n) (pos + ucast n)
                       (buffer + n) s))
      else (Inr amount, pos, s))"
  by pat_completeness auto
termination
  by (relation "measure (\<lambda>(h, c, u, oi, count, amount, pos, buffer, s).
         unat count - unat amount)")
     (simp_all only: wf_measure in_measure prod.case copy_loop_decreases)

declare write_loop.simps [simp del]

definition ospfs_write ::
  "ospfs_h \<Rightarrow> ospfs_fs \<Rightarrow> 'u copy_from_user_t \<Rightarrow> ospfs_file \<Rightarrow> 'u \<Rightarrow> 32 word \<Rightarrow> 32 word
     \<Rightarrow> (status + 32 word) \<times> ospfs_file \<times> ospfs_fs" where
  "ospfs_write h s copy_from_user filp u buffer count =
     (case ospfs_inode s (f_ino filp) of
        None \<Rightarrow> (Inl OOPS, filp, s)
      | Some i \<Rightarrow>
          let oi = inodes s i;
              filp = (if f_append filp then filp\<lparr>f_pos := ucast (oi_size oi)\<rparr> else filp);
              newsize = (ucast (f_pos filp + ucast count) :: 32 word);
              (retval, s, oi) = (if newsize \<ge> oi_size oi then change_size h s oi newsize
                                 else (OK, s, oi));
              s = s\<lparr>inodes := (inodes s)(i := oi)\<rparr>
          in
          if retval \<noteq> OK then (Inl retval, filp, s)
          else
            (case write_loop h copy_from_user u oi count 0 (f_pos filp) buffer s of
               (r, pos', s') \<Rightarrow> (r, filp\<lparr>f_pos := pos'\<rparr>, s')))"

subsection \<open>Removing a directory entry\<close>

text \<open>
  Of \<^verbatim>\<open>struct dentry\<close>: the name, the inode number of the entry
  (\<^verbatim>\<open>dentry->d_inode->i_ino\<close>) and that of the directory
  (\<^verbatim>\<open>dentry->d_parent->d_inode->i_ino\<close>).
\<close>

record ospfs_dentry =
  d_name :: "8 word list"
  d_ino :: "32 word"
  d_parent_ino :: "32 word"

text \<open>
  The loop of \<^verbatim>\<open>ospfs_unlink\<close> over the entries of the directory.  The offset is an
  \<^verbatim>\<open>int\<close> that is compared with the unsigned size and grows by the size of an entry:
  nothing bounds the number of rounds when the sum wraps around, so the loop is a partial
  function, \<open>None\<close> when it does not end.  It returns the offset and the pointer \<open>od\<close>,
  the entry looked at last.
\<close>

partial_function (option) unlink_loop ::
  "ospfs_h \<Rightarrow> ospfs_fs \<Rightarrow> ospfs_inode \<Rightarrow> 8 word list \<Rightarrow> 32 word \<Rightarrow> nat option
     \<Rightarrow> (32 word \<times> nat option) option" where
  "unlink_loop h s dir_oi name entry_off od =
     (if entry_off < oi_size dir_oi then
        (let od = ospfs_inode_data h s dir_oi entry_off in
         if direntry_match h s od name then Some (entry_off, Some od)
         else unlink_loop h s dir_oi name (entry_off + OSPFS_DIRENTRY_SIZE h) (Some od))
      else Some (entry_off, od))"

definition ospfs_unlink :: "ospfs_h \<Rightarrow> ospfs_fs \<Rightarrow> ospfs_dentry \<Rightarrow> (status \<times> ospfs_fs) option" where
  "ospfs_unlink h s dentry =
     (case ospfs_inode s (d_parent_ino dentry) of
        None \<Rightarrow> Some (OOPS, s)
      | Some di \<Rightarrow>
          (case unlink_loop h s (inodes s di) (d_name dentry) 0 None of
             None \<Rightarrow> None
           | Some (entry_off, od) \<Rightarrow>
               if entry_off = oi_size (inodes s di) then Some (ENOENT, s)
               else
                 (case (od, ospfs_inode s (d_ino dentry)) of
                    (Some od, Some i) \<Rightarrow>
                      let s = s\<lparr>ospfs_data := put32 (ospfs_data s) od 0\<rparr>;
                          s = s\<lparr>inodes := (inodes s)
                                (i := (inodes s i)\<lparr>oi_nlink := oi_nlink (inodes s i) - 1\<rparr>)\<rparr>;
                          s = s\<lparr>inodes := (inodes s)
                                (di := (inodes s di)\<lparr>oi_nlink := oi_nlink (inodes s di) - 1\<rparr>)\<rparr>
                      in
                      if oi_nlink (inodes s i) = 0
                         \<and> oi_ftype (inodes s i) \<noteq> OSPFS_FTYPE_SYMLINK h
                      then
                        (case change_size h s (inodes s i) 0 of
                           (r, s', oi') \<Rightarrow> Some (OK, s'\<lparr>inodes := (inodes s')(i := oi')\<rparr>))
                      else Some (OK, s)
                  | _ \<Rightarrow> Some (OOPS, s))))"

subsection \<open>The inode table by bytes\<close>

text \<open>
  Modelled from the spec: the header with the two inode types is not among the sources.
  An inode is its fields in the order of section 3 of the spec, each a word of 32 bits,
  so it has 4 * (6 + ND) = 64 bytes; the character array \<^verbatim>\<open>oi_symlink\<close> of the view
  \<^verbatim>\<open>ospfs_symlink_inode_t\<close> begins behind the three fields that the two views share,
  at byte 12.
\<close>

definition OSPFS_INODESIZE :: nat where
  "OSPFS_INODESIZE = 4 * (6 + unat OSPFS_NDIRECT)"

text \<open>The byte \<open>b\<close> of a word, little endian, and the word with that byte replaced.\<close>

definition word_byte :: "32 word \<Rightarrow> nat \<Rightarrow> 8 word" where
  "word_byte w b = ucast (drop_bit (8 * b) w)"

definition word_put_byte :: "32 word \<Rightarrow> nat \<Rightarrow> 8 word \<Rightarrow> 32 word" where
  "word_put_byte w b v = (w AND NOT (push_bit (8 * b) 255)) OR push_bit (8 * b) (ucast v)"

text \<open>
  The byte \<open>b\<close> of an inode as a character pointer into the view of the symbolic link
  reads it, and the inode after a store of one character at byte \<open>b\<close>: from byte 12 on,
  where the character array and the fields of the other view lie over each other in C,
  both take the character.
\<close>

definition inode_byte :: "ospfs_inode \<Rightarrow> nat \<Rightarrow> 8 word" where
  "inode_byte oi b =
     (if b < 4 then word_byte (oi_size oi) b
      else if b < 8 then word_byte (oi_ftype oi) (b - 4)
      else if b < 12 then word_byte (oi_nlink oi) (b - 8)
      else oi_symlink oi (b - 12))"

definition inode_put_byte :: "ospfs_inode \<Rightarrow> nat \<Rightarrow> 8 word \<Rightarrow> ospfs_inode" where
  "inode_put_byte oi b v =
     (if b < 4 then oi\<lparr>oi_size := word_put_byte (oi_size oi) b v\<rparr>
      else if b < 8 then oi\<lparr>oi_ftype := word_put_byte (oi_ftype oi) (b - 4) v\<rparr>
      else if b < 12 then oi\<lparr>oi_nlink := word_put_byte (oi_nlink oi) (b - 8) v\<rparr>
      else
        let oi = oi\<lparr>oi_symlink := (oi_symlink oi)(b - 12 := v)\<rparr>;
            w = (b - 16) div 4
        in
        if b < 16 then oi\<lparr>oi_mode := word_put_byte (oi_mode oi) (b - 12) v\<rparr>
        else if w < unat OSPFS_NDIRECT
        then oi\<lparr>oi_direct := (oi_direct oi)(w := word_put_byte (oi_direct oi w) (b mod 4) v)\<rparr>
        else if w = unat OSPFS_NDIRECT
        then oi\<lparr>oi_indirect := word_put_byte (oi_indirect oi) (b mod 4) v\<rparr>
        else oi\<lparr>oi_indirect2 := word_put_byte (oi_indirect2 oi) (b mod 4) v\<rparr>)"

text \<open>
  The character at the offset \<open>p\<close> from the start of the inode table,
  \<^verbatim>\<open>ospfs_block(os_firstinob)\<close>: it lies in an inode while \<open>p div OSPFS_INODESIZE\<close>
  is below the number of inodes, and in the bytes of the image behind the table
  otherwise.  \<^verbatim>\<open>oi_symlink[i]\<close> of the inode \<open>e\<close> is at \<open>symlink_addr e i\<close>, also for
  an index behind the array, which leads into the inodes that follow.
\<close>

definition inode_table_get :: "ospfs_fs \<Rightarrow> nat \<Rightarrow> 8 word" where
  "inode_table_get s p =
     (if p div OSPFS_INODESIZE < unat (os_ninodes s)
      then inode_byte (inodes s (p div OSPFS_INODESIZE)) (p mod OSPFS_INODESIZE)
      else ospfs_data s (ospfs_block (os_firstinob s) + p))"

definition inode_table_put :: "ospfs_fs \<Rightarrow> nat \<Rightarrow> 8 word \<Rightarrow> ospfs_fs" where
  "inode_table_put s p v =
     (if p div OSPFS_INODESIZE < unat (os_ninodes s)
      then s\<lparr>inodes := (inodes s)(p div OSPFS_INODESIZE :=
               inode_put_byte (inodes s (p div OSPFS_INODESIZE)) (p mod OSPFS_INODESIZE) v)\<rparr>
      else s\<lparr>ospfs_data := (ospfs_data s)(ospfs_block (os_firstinob s) + p := v)\<rparr>)"

primrec inode_table_store :: "ospfs_fs \<Rightarrow> nat \<Rightarrow> 8 word list \<Rightarrow> ospfs_fs" where
  "inode_table_store s p [] = s"
| "inode_table_store s p (v # vs) = inode_table_store (inode_table_put s p v) (Suc p) vs"

definition symlink_addr :: "nat \<Rightarrow> nat \<Rightarrow> nat" where
  "symlink_addr e i = e * OSPFS_INODESIZE + 12 + i"

text \<open>
  \<^verbatim>\<open>strlen\<close> of the string at an offset of the inode table, and the string.  The scan
  goes on through the table and the image; \<open>None\<close> when it leaves the image, the array
  \<^verbatim>\<open>ospfs_data\<close> of \<open>os_nblocks\<close> blocks, without a 0.
\<close>

function strlen_from :: "ospfs_fs \<Rightarrow> nat \<Rightarrow> nat option" where
  "strlen_from s p =
     (if unat (os_nblocks s) * unat OSPFS_BLKSIZE \<le> ospfs_block (os_firstinob s) + p then None
      else if inode_table_get s p = 0 then Some 0
      else map_option Suc (strlen_from s (Suc p)))"
  by pat_completeness auto
termination
  by (relation "measure (\<lambda>(s, p). unat (os_nblocks s) * unat OSPFS_BLKSIZE
        - (ospfs_block (os_firstinob s) + p))") auto

declare strlen_from.simps [simp del]

definition c_string_from :: "ospfs_fs \<Rightarrow> nat \<Rightarrow> 8 word list option" where
  "c_string_from s p = map_option (\<lambda>n. map (inode_table_get s) [p..<p + n]) (strlen_from s p)"

subsection \<open>Symbolic links\<close>

text \<open>
  The loop of \<^verbatim>\<open>find_direntry\<close>, from the offset \<open>off\<close> on, and the function: the
  address of the first entry of the directory that matches the name, \<open>None\<close> inside for
  the null pointer.  The offset is compared with the unsigned size, so it counts as a
  \<^verbatim>\<open>uint32_t\<close>.
\<close>

partial_function (option) find_direntry_loop ::
  "ospfs_h \<Rightarrow> ospfs_fs \<Rightarrow> ospfs_inode \<Rightarrow> 8 word list \<Rightarrow> 32 word \<Rightarrow> nat option option" where
  "find_direntry_loop h s dir_oi name off =
     (if off < oi_size dir_oi then
        (let od = ospfs_inode_data h s dir_oi off in
         if direntry_match h s od name then Some (Some od)
         else find_direntry_loop h s dir_oi name (off + OSPFS_DIRENTRY_SIZE h))
      else Some None)"

declare find_direntry_loop.simps [code]

definition find_direntry ::
  "ospfs_h \<Rightarrow> ospfs_fs \<Rightarrow> ospfs_inode \<Rightarrow> 8 word list \<Rightarrow> nat option option" where
  "find_direntry h s dir_oi name = find_direntry_loop h s dir_oi name 0"

text \<open>
  \<^verbatim>\<open>create_blank_direntry\<close>: the first entry with inode number 0 and, when the
  directory has none, the entry at the old end of a directory that has grown by one
  block.  \<open>Inl\<close> is the error pointer.
\<close>

partial_function (option) create_blank_direntry_loop ::
  "ospfs_h \<Rightarrow> ospfs_fs \<Rightarrow> ospfs_inode \<Rightarrow> 32 word \<Rightarrow> (32 word \<times> nat option) option" where
  "create_blank_direntry_loop h s dir_oi offset =
     (if offset < oi_size dir_oi then
        (let od = ospfs_inode_data h s dir_oi offset in
         if od_ino s od = 0 then Some (offset, Some od)
         else create_blank_direntry_loop h s dir_oi (offset + OSPFS_DIRENTRY_SIZE h))
      else Some (offset, None))"

declare create_blank_direntry_loop.simps [code]

definition create_blank_direntry ::
  "ospfs_h \<Rightarrow> ospfs_fs \<Rightarrow> ospfs_inode \<Rightarrow> ((status + nat) \<times> ospfs_fs \<times> ospfs_inode) option" where
  "create_blank_direntry h s dir_oi =
     (if oi_ftype dir_oi \<noteq> OSPFS_FTYPE_DIR h then Some (Inl EIO, s, dir_oi)
      else
        (case create_blank_direntry_loop h s dir_oi 0 of
           None \<Rightarrow> None
         | Some (offset, Some od) \<Rightarrow> Some (Inr od, s, dir_oi)
         | Some (offset, None) \<Rightarrow>
             let new_size = (ospfs_size2nblocks (oi_size dir_oi) + 1) * OSPFS_BLKSIZE;
                 (retval, s, dir_oi) = change_size h s dir_oi new_size
             in
             if retval \<noteq> OK then Some (Inl retval, s, dir_oi)
             else
               let dir_oi = dir_oi\<lparr>oi_size := new_size\<rparr>
               in Some (Inr (ospfs_inode_data h s dir_oi offset), s, dir_oi)))"

text \<open>
  Of the C library: \<^verbatim>\<open>strpbrk(s, accept)\<close> as the index in \<open>s\<close> of the first
  character that is one of \<open>accept\<close>, \<open>None\<close> for the null pointer; and the \<open>n\<close> bytes
  that \<^verbatim>\<open>strncpy(dst, src, n)\<close> writes.
\<close>

definition strpbrk :: "8 word list \<Rightarrow> 8 word list \<Rightarrow> nat option" where
  "strpbrk cs accept =
     (let n = length (takeWhile (\<lambda>c. c \<notin> set accept) (c_string cs))
      in if n < strlen cs then Some n else None)"

definition strncpy :: "8 word list \<Rightarrow> nat \<Rightarrow> 8 word list" where
  "strncpy src n = take n (c_string src) @ replicate (n - strlen src) 0"

text \<open>
  The part of \<^verbatim>\<open>ospfs_symlink\<close> that sets \<^verbatim>\<open>oi_size\<close> and fills
  \<^verbatim>\<open>oi_symlink\<close> of the inode \<open>e\<close>, first the branch of the plain link, then the
  whole of it.  \<^verbatim>\<open>qmark\<close> and \<^verbatim>\<open>colon\<close> are indices in \<open>symname\<close>.  In the
  branch of the conditional link the lengths are checked against \<open>OSPFS_MAXNAMELEN\<close>, not
  against the length of the array, and nothing else bounds the stores: the characters of
  a target that is longer than the array go into the inodes that follow.
\<close>

definition symlink_encode_plain ::
  "ospfs_h \<Rightarrow> ospfs_fs \<Rightarrow> nat \<Rightarrow> 8 word list \<Rightarrow> status + ospfs_fs" where
  "symlink_encode_plain h s e symname =
     (let name_len = strlen symname in
      if name_len > OSPFS_MAXSYMLINKLEN h then Inl ENAMETOOLONG
      else
        let s = s\<lparr>inodes := (inodes s)(e := (inodes s e)\<lparr>oi_size := of_nat name_len\<rparr>)\<rparr>;
            s = inode_table_store s (symlink_addr e 0)
                  (strncpy symname (unat (oi_size (inodes s e))));
            s = inode_table_put s (symlink_addr e (unat (oi_size (inodes s e)))) 0
        in Inr s)"

definition symlink_encode ::
  "ospfs_h \<Rightarrow> ospfs_fs \<Rightarrow> nat \<Rightarrow> 8 word list \<Rightarrow> status + ospfs_fs" where
  "symlink_encode h s e symname =
     (let qmark = strpbrk symname (bytes_of ''?'');
          colon = strpbrk symname (bytes_of '':'')
      in
      if qmark \<noteq> None \<and> colon \<noteq> None \<and> the colon > the qmark then
        (let root_path_len = the colon - the qmark + 1;
             other_path_len = strlen (drop (the colon) symname)
         in
         if root_path_len + other_path_len > OSPFS_MAXNAMELEN h then Inl ENAMETOOLONG
         else
           let s = s\<lparr>inodes := (inodes s)(e := (inodes s e)
                      \<lparr>oi_size := of_nat (strlen (drop (the qmark) symname) + 1)\<rparr>)\<rparr>;
               s = inode_table_store s (symlink_addr e 0)
                     (strncpy (drop (the qmark) symname) (root_path_len - 1));
               s = inode_table_put s (symlink_addr e (root_path_len - 1)) 0;
               s = inode_table_store s (symlink_addr e root_path_len)
                     (strncpy (drop (the colon) symname) other_path_len);
               s = inode_table_put s (symlink_addr e (unat (oi_size (inodes s e)))) 0
           in Inr s)
      else symlink_encode_plain h s e symname)"

text \<open>
  \<^verbatim>\<open>ospfs_symlink\<close>.  The flag \<open>new_inode_ok\<close> says whether the kernel can make its
  own inode in \<^verbatim>\<open>ospfs_mk_linux_inode\<close>.
\<close>

definition ospfs_symlink ::
  "ospfs_h \<Rightarrow> ospfs_fs \<Rightarrow> bool \<Rightarrow> 32 word \<Rightarrow> 8 word list \<Rightarrow> 8 word list
     \<Rightarrow> (status \<times> ospfs_fs) option" where
  "ospfs_symlink h s new_inode_ok dir_ino name symname =
     (case ospfs_inode s dir_ino of
        None \<Rightarrow> Some (OOPS, s)
      | Some di \<Rightarrow>
          if oi_ftype (inodes s di) \<noteq> OSPFS_FTYPE_DIR h then Some (EIO, s)
          else if length name > OSPFS_MAXNAMELEN h then Some (ENAMETOOLONG, s)
          else
            (case find_direntry h s (inodes s di) name of
               None \<Rightarrow> None
             | Some (Some od) \<Rightarrow> Some (EEXIST, s)
             | Some None \<Rightarrow>
                 let entry_ino = find_free_inode s in
                 if entry_ino = 0 then Some (ENOSPC, s)
                 else
                   (case ospfs_inode s entry_ino of
                      None \<Rightarrow> Some (EIO, s)
                    | Some e \<Rightarrow>
                        (case create_blank_direntry h s (inodes s di) of
                           None \<Rightarrow> None
                         | Some (r, s, dir_oi) \<Rightarrow>
                             let s = s\<lparr>inodes := (inodes s)(di := dir_oi)\<rparr> in
                             (case r of
                                Inl err \<Rightarrow> Some (err, s)
                              | Inr od \<Rightarrow>
                                  (case symlink_encode h s e symname of
                                     Inl err \<Rightarrow> Some (err, s)
                                   | Inr s \<Rightarrow>
                                       let s = s\<lparr>inodes := (inodes s)
                                                 (e := (inodes s e)
                                                    \<lparr>oi_ftype := OSPFS_FTYPE_SYMLINK h,
                                                     oi_nlink := 1\<rparr>)\<rparr>;
                                           s = store_bytes s (od + 4) (strncpy name (length name));
                                           s = store_bytes s (od + 4 + length name) [0];
                                           s = s\<lparr>ospfs_data := put32 (ospfs_data s) od entry_ino\<rparr>;
                                           s = s\<lparr>inodes := (inodes s)
                                                 (di := (inodes s di)\<lparr>oi_nlink :=
                                                    oi_nlink (inodes s di) + 1\<rparr>)\<rparr>
                                       in
                                       if new_inode_ok then Some (OK, s)
                                       else Some (ENOMEM, s)))))))"

text \<open>
  \<^verbatim>\<open>ospfs_follow_link\<close>.  The result \<open>Inr off\<close> stands for
  \<^verbatim>\<open>nd_set_link(nd, oi->oi_symlink + off)\<close> and the return of a null pointer.  The
  loop that moves \<^verbatim>\<open>off\<close> to the first character 0 is \<open>strlen_from\<close>.
\<close>

definition ospfs_follow_link :: "ospfs_fs \<Rightarrow> 32 word \<Rightarrow> 32 word \<Rightarrow> status + nat" where
  "ospfs_follow_link s ino uid =
     (case ospfs_inode s ino of
        None \<Rightarrow> Inl OOPS
      | Some i \<Rightarrow>
          if inode_table_get s (symlink_addr i 0) = of_nat (of_char CHR ''?'') then
            (if uid = 0 then Inr 1
             else
               (case strlen_from s (symlink_addr i 0) of
                  None \<Rightarrow> Inl OOPS
                | Some off \<Rightarrow>
                    if inode_table_get s (symlink_addr i (off + 1)) \<noteq> of_nat (of_char CHR '':'')
                       \<or> of_nat off \<ge> oi_size (inodes s i)
                    then Inl EIO
                    else Inr (off + 2)))
          else Inr 0)"

text \<open>
  The path that the kernel goes on with after \<^verbatim>\<open>ospfs_follow_link\<close>: the string at
  the address that \<^verbatim>\<open>nd_set_link\<close> was given.
\<close>

definition followed_link :: "ospfs_fs \<Rightarrow> 32 word \<Rightarrow> 32 word \<Rightarrow> status + 8 word list" where
  "followed_link s ino uid =
     (case ospfs_follow_link s ino uid of
        Inl err \<Rightarrow> Inl err
      | Inr off \<Rightarrow>
          (case c_string_from s (symlink_addr (unat ino) off) of
             None \<Rightarrow> Inl OOPS
           | Some path \<Rightarrow> Inr path))"

subsection \<open>Reading a directory, as a relation on cursors\<close>

text \<open>
  The entry at the index \<open>j\<close> of a directory; and what the iterator does at the cursor
  \<open>k\<close>, a natural number, with the state \<open>c\<close> of the consumer, up to the value it
  returns and the state the consumer is left in: \<open>.\<close> at cursor 0 and \<open>..\<close> at cursor 1;
  from cursor 2 on the entry at the index \<open>k - 2\<close>, and the end of the directory when
  \<open>(k - 2) * DIRENTRY_SIZE\<close> is not below the size; an entry whose inode number is 0 or
  not below the number of inodes is skipped; an entry whose inode has none of the three
  file types ends the iteration with \<open>EIO\<close>; the consumer ends it by a negative value.
  The arithmetic is that of the natural numbers, and the relation says nothing of the
  position that the file is left at.
\<close>

definition direntry_at :: "ospfs_h \<Rightarrow> ospfs_fs \<Rightarrow> nat \<Rightarrow> nat \<Rightarrow> nat" where
  "direntry_at h s d j =
     ospfs_inode_data h s (inodes s d) (of_nat (j * unat (OSPFS_DIRENTRY_SIZE h)))"

inductive readdir_spec ::
  "ospfs_h \<Rightarrow> ospfs_fs \<Rightarrow> 'd filldir_t \<Rightarrow> nat \<Rightarrow> 32 word \<Rightarrow> 32 word \<Rightarrow> nat \<Rightarrow> 'd
     \<Rightarrow> (status + nat) \<times> 'd \<Rightarrow> bool"
  for h :: ospfs_h and s :: ospfs_fs and filldir :: "'d filldir_t" and d :: nat
    and dir_ino :: "32 word" and parent_ino :: "32 word" where
  dot:
    "filldir c (bytes_of ''.'') 1 0 dir_ino DT_DIR = (ok, c') \<Longrightarrow> 0 \<le> ok \<Longrightarrow>
     readdir_spec h s filldir d dir_ino parent_ino 1 c' res \<Longrightarrow>
     readdir_spec h s filldir d dir_ino parent_ino 0 c res"
| dot_stop:
    "filldir c (bytes_of ''.'') 1 0 dir_ino DT_DIR = (ok, c') \<Longrightarrow> ok < 0 \<Longrightarrow>
     readdir_spec h s filldir d dir_ino parent_ino 0 c (Inr 0, c')"
| dotdot:
    "filldir c (bytes_of ''..'') 2 1 parent_ino DT_DIR = (ok, c') \<Longrightarrow> 0 \<le> ok \<Longrightarrow>
     readdir_spec h s filldir d dir_ino parent_ino 2 c' res \<Longrightarrow>
     readdir_spec h s filldir d dir_ino parent_ino 1 c res"
| dotdot_stop:
    "filldir c (bytes_of ''..'') 2 1 parent_ino DT_DIR = (ok, c') \<Longrightarrow> ok < 0 \<Longrightarrow>
     readdir_spec h s filldir d dir_ino parent_ino 1 c (Inr 0, c')"
| end_of_directory:
    "2 \<le> k \<Longrightarrow>
     unat (oi_size (inodes s d)) \<le> (k - 2) * unat (OSPFS_DIRENTRY_SIZE h) \<Longrightarrow>
     readdir_spec h s filldir d dir_ino parent_ino k c (Inr 1, c)"
| skip:
    "2 \<le> k \<Longrightarrow>
     (k - 2) * unat (OSPFS_DIRENTRY_SIZE h) < unat (oi_size (inodes s d)) \<Longrightarrow>
     od = direntry_at h s d (k - 2) \<Longrightarrow>
     od_ino s od = 0 \<or> os_ninodes s \<le> od_ino s od \<Longrightarrow>
     readdir_spec h s filldir d dir_ino parent_ino (k + 1) c res \<Longrightarrow>
     readdir_spec h s filldir d dir_ino parent_ino k c res"
| unknown_ftype:
    "2 \<le> k \<Longrightarrow>
     (k - 2) * unat (OSPFS_DIRENTRY_SIZE h) < unat (oi_size (inodes s d)) \<Longrightarrow>
     od = direntry_at h s d (k - 2) \<Longrightarrow>
     od_ino s od \<noteq> 0 \<Longrightarrow> od_ino s od < os_ninodes s \<Longrightarrow>
     readdir_file_type h (oi_ftype (inodes s (unat (od_ino s od)))) = None \<Longrightarrow>
     readdir_spec h s filldir d dir_ino parent_ino k c (Inl EIO, c)"
| emit:
    "2 \<le> k \<Longrightarrow>
     (k - 2) * unat (OSPFS_DIRENTRY_SIZE h) < unat (oi_size (inodes s d)) \<Longrightarrow>
     od = direntry_at h s d (k - 2) \<Longrightarrow>
     od_ino s od \<noteq> 0 \<Longrightarrow> od_ino s od < os_ninodes s \<Longrightarrow>
     readdir_file_type h (oi_ftype (inodes s (unat (od_ino s od)))) = Some kind \<Longrightarrow>
     filldir c (c_string (od_name h s od)) (strlen (od_name h s od)) (of_nat k)
       (od_ino s od) kind = (ok, c') \<Longrightarrow>
     0 \<le> ok \<Longrightarrow>
     readdir_spec h s filldir d dir_ino parent_ino (k + 1) c' res \<Longrightarrow>
     readdir_spec h s filldir d dir_ino parent_ino k c res"
| emit_stop:
    "2 \<le> k \<Longrightarrow>
     (k - 2) * unat (OSPFS_DIRENTRY_SIZE h) < unat (oi_size (inodes s d)) \<Longrightarrow>
     od = direntry_at h s d (k - 2) \<Longrightarrow>
     od_ino s od \<noteq> 0 \<Longrightarrow> od_ino s od < os_ninodes s \<Longrightarrow>
     readdir_file_type h (oi_ftype (inodes s (unat (od_ino s od)))) = Some kind \<Longrightarrow>
     filldir c (c_string (od_name h s od)) (strlen (od_name h s od)) (of_nat k)
       (od_ino s od) kind = (ok, c') \<Longrightarrow>
     ok < 0 \<Longrightarrow>
     readdir_spec h s filldir d dir_ino parent_ino k c (Inr 0, c')"

subsection \<open>The block index in the words of the spec\<close>

text \<open>
  With \<open>b = off div BLKSIZE\<close>: no block (0) when the offset is not below the size or the
  inode is a symbolic link; \<open>direct[b]\<close> when \<open>b < ND\<close>; slot \<open>b - ND\<close> of the block that
  \<open>indirect\<close> points to when \<open>b < ND + NI\<close>; and otherwise, with \<open>b' = b - (ND + NI)\<close>,
  slot \<open>b' mod NI\<close> of the indirect block found at slot \<open>b' div NI\<close> of the block that
  \<open>indirect2\<close> points to.  The arithmetic is that of the natural numbers.
\<close>

definition block_of_spec :: "ospfs_h \<Rightarrow> ospfs_fs \<Rightarrow> ospfs_inode \<Rightarrow> 32 word \<Rightarrow> 32 word" where
  "block_of_spec h s oi off =
     (if unat off \<ge> unat (oi_size oi) \<or> oi_ftype oi = OSPFS_FTYPE_SYMLINK h then 0
      else
        let b = unat off div 1024 in
        if b < 10 then oi_direct oi b
        else if b < 10 + 256 then slot_get s (ospfs_block (oi_indirect oi)) (of_nat (b - 10))
        else
          let b' = b - (10 + 256) in
          slot_get s
            (ospfs_block (slot_get s (ospfs_block (oi_indirect2 oi)) (of_nat (b' div 256))))
            (of_nat (b' mod 256)))"


section \<open>Concrete images\<close>

text \<open>
  The images and inodes on which the functions are evaluated below.  Both images have 64
  blocks with the inode table from block 3 on, and one free block, block 40 (bit 8 of the
  second word of the bitmap); the first has 32 inodes, the second 64.
\<close>

definition blank_inode :: ospfs_inode where
  "blank_inode = \<lparr> oi_size = 0, oi_ftype = 0, oi_nlink = 0, oi_mode = 0, oi_direct = (\<lambda>_. 0),
     oi_indirect = 0, oi_indirect2 = 0, oi_symlink = (\<lambda>_. 0) \<rparr>"

definition img_few_inodes :: ospfs_fs where
  "img_few_inodes = \<lparr> os_nblocks = 64, os_ninodes = 32, os_firstinob = 3,
     freemap = (\<lambda>_. 0)(1 := 256), inodes = (\<lambda>_. blank_inode), ospfs_data = (\<lambda>_. 0) \<rparr>"

definition img_one_free :: ospfs_fs where
  "img_one_free = \<lparr> os_nblocks = 64, os_ninodes = 64, os_firstinob = 3,
     freemap = (\<lambda>_. 0)(1 := 256), inodes = (\<lambda>_. blank_inode), ospfs_data = (\<lambda>_. 0) \<rparr>"

definition img_full :: ospfs_fs where
  "img_full = img_one_free \<lparr> freemap := (\<lambda>_. 0) \<rparr>"

text \<open>
  A regular file of ten blocks, the blocks 20 to 29, all of them direct; and the same
  file with the size of eleven blocks, whose indirect block is missing.
\<close>

definition file10 :: ospfs_inode where
  "file10 = blank_inode \<lparr> oi_size := 10240, oi_nlink := 1,
     oi_direct := (\<lambda>i. if i < 10 then 20 + of_nat i else 0) \<rparr>"

definition file11_no_indirect :: ospfs_inode where
  "file11_no_indirect = file10 \<lparr> oi_size := 11264 \<rparr>"

text \<open>
  An image with a directory, inode 3, of one block (block 30).  Its first entry is the
  name \<open>b\<close> for inode 4, its second the name \<open>a\<close> for inode 2, a regular file with two
  links; the other entries are empty.
\<close>

definition dir_inode :: ospfs_inode where
  "dir_inode = blank_inode \<lparr> oi_size := 1024, oi_ftype := 1, oi_nlink := 1,
     oi_direct := (\<lambda>_. 0)(0 := 30) \<rparr>"

definition file_two_links :: ospfs_inode where
  "file_two_links = blank_inode \<lparr> oi_nlink := 2 \<rparr>"

definition img_dir :: ospfs_fs where
  "img_dir = \<lparr> os_nblocks = 64, os_ninodes = 64, os_firstinob = 3,
     freemap = (\<lambda>_. 0)(1 := 256),
     inodes = (\<lambda>_. blank_inode)(3 := dir_inode, 2 := file_two_links, 4 := file_two_links),
     ospfs_data = (\<lambda>_. 0)(30720 := 4, 30724 := 98, 30848 := 2, 30852 := 97) \<rparr>"

text \<open>
  An image in which the free inode with the lowest number, 2, lies before the inode of a
  directory, 3.  The directory has one block (block 30) and one entry, the name \<open>b\<close> for
  inode 4.
\<close>

definition img_dir_free2 :: ospfs_fs where
  "img_dir_free2 = \<lparr> os_nblocks = 64, os_ninodes = 64, os_firstinob = 3,
     freemap = (\<lambda>_. 0)(1 := 256),
     inodes = (\<lambda>_. blank_inode)(3 := dir_inode, 4 := file_two_links),
     ospfs_data = (\<lambda>_. 0)(30720 := 4, 30724 := 98) \<rparr>"

definition dentry_a :: ospfs_dentry where
  "dentry_a = \<lparr> d_name = bytes_of ''a'', d_ino = 2, d_parent_ino = 3 \<rparr>"





section \<open>Properties\<close>

lemmas hdr_defs = OSPFS_BLKSIZE_def OSPFS_NDIRECT_def OSPFS_NINDIRECT_def OSPFS_FREEMAP_BLK_def

subsection \<open>The size engine on a full disk\<close>

lemma alloc_one_free: "allocate_block img_one_free = (40, img_full)"
  unfolding allocate_block_def OSPFS_FREEMAP_BLK_def
  by (simp add: allocate_block_from.simps bitvector_test_def bitvector_clear_def
      img_one_free_def img_full_def fun_eq_iff)

lemma alloc_from_none: "freemap s = (\<lambda>_. 0) \<Longrightarrow> allocate_block_from s i = (0, s)"
proof (induction s i rule: allocate_block_from.induct)
  case (1 s i)
  then show ?case
    by (subst allocate_block_from.simps) (simp add: bitvector_test_def)
qed

lemma alloc_none: "freemap s = (\<lambda>_. 0) \<Longrightarrow> allocate_block s = (0, s)"
  by (simp add: allocate_block_def alloc_from_none)

lemma freemap_full [simp]:
  "freemap img_full = (\<lambda>_. 0)" "freemap (memset_zero s p) = freemap s"
  "freemap (slot_set s p i v) = freemap s"
  by (simp_all add: img_full_def memset_zero_def slot_set_def)

lemma nb_file10: "ospfs_size2nblocks (oi_size file10) = 10"
  by (simp add: ospfs_size2nblocks_def file10_def hdr_defs)

lemma nb_consts: "ospfs_size2nblocks 11264 = 11" "ospfs_size2nblocks 10240 = 10"
  by (simp_all add: ospfs_size2nblocks_def hdr_defs)

lemma index_10:
  "indir_index 10 = 0" "indir2_index 10 = - 1" "direct_index 10 = 0"
  by (simp_all add: indir_index_def indir2_index_def direct_index_def hdr_defs)

lemma test_one_free: "bitvector_test (freemap img_one_free) 40"
  by (simp add: bitvector_test_def img_one_free_def)

text \<open>
  The eleventh block of \<open>file10\<close> needs an indirect block.  \<^verbatim>\<open>add_block\<close> takes the
  one free block for it, writes its number into \<^verbatim>\<open>oi->oi_indirect\<close>, finds no block
  for the data and leaves through \<^verbatim>\<open>ERR_HANDLE\<close>, where the array \<^verbatim>\<open>allocated\<close>
  holds two zeros.
\<close>

lemma add_block_file10:
  "add_block lab_h img_one_free file10 =
     (ENOSPC, slot_set (memset_zero img_full (ospfs_block 40)) (ospfs_block 40) 0 0,
      file10\<lparr>oi_indirect := 40\<rparr>)"
proof -
  have "add_block lab_h img_one_free file10 = add_block_indirect lab_h img_one_free file10 10 0"
    by (simp add: add_block_def nb_file10 index_10 lab_h_def)
  also have "\<dots> = (ENOSPC, slot_set (memset_zero img_full (ospfs_block 40)) (ospfs_block 40) 0 0,
        file10\<lparr>oi_indirect := 40\<rparr>)"
    by (simp add: add_block_indirect_def add_block_indirect_data_def add_block_err_handle_def
        alloc_one_free alloc_none file10_def blank_inode_def Let_def)
  finally show ?thesis .
qed

text \<open>
  C1.  The claim: when \<^verbatim>\<open>change_size\<close> fails with \<open>ENOSPC\<close> on growth, the size of the
  inode and the free bitmap are as before the call.  On the image with one free block,
  growing \<open>file10\<close> to eleven blocks returns \<open>ENOSPC\<close> with the size as before, but block
  40, free before the call, is allocated after it.
\<close>

theorem change_size_enospc_leaks_block:
  "bitvector_test (freemap img_one_free) 40 \<and>
   (case change_size lab_h img_one_free file10 11264 of (r, s', oi') \<Rightarrow>
      r = ENOSPC \<and> oi_size oi' = oi_size file10 \<and> \<not> bitvector_test (freemap s') 40)"
proof -
  have g: "change_size_grow lab_h img_one_free file10 11264 =
      (ENOSPC, slot_set (memset_zero img_full (ospfs_block 40)) (ospfs_block 40) 0 0,
       file10\<lparr>oi_indirect := 40\<rparr>)"
    by (subst change_size_grow.simps) (simp add: nb_consts nb_file10 add_block_file10)
  have sz: "oi_size file10 = 10240" by (simp add: file10_def)
  have s: "change_size_shrink lab_h s (file10\<lparr>oi_indirect := 40\<rparr>) 10240 =
      (OK, s, file10\<lparr>oi_indirect := 40\<rparr>)" for s
    by (subst change_size_shrink.simps) (simp add: nb_consts sz)
  have cs: "change_size lab_h img_one_free file10 11264 =
      (ENOSPC, slot_set (memset_zero img_full (ospfs_block 40)) (ospfs_block 40) 0 0,
       file10\<lparr>oi_indirect := 40, oi_size := 10240\<rparr>)"
    by (simp add: change_size_def g s sz)
  show ?thesis
    unfolding cs by (simp add: test_one_free sz) (simp add: bitvector_test_def)
qed

text \<open>
  C2.  The claim: when \<^verbatim>\<open>add_block\<close> returns an error, the inode is unchanged and
  every block the call allocated is free again.  On the same image \<^verbatim>\<open>add_block\<close>
  returns \<open>ENOSPC\<close> for \<open>file10\<close>, whose field \<open>oi_indirect\<close> was 0 and is 40 now, and
  block 40 stays allocated.
\<close>

theorem add_block_enospc_keeps_indirect:
  "oi_indirect file10 = 0 \<and> bitvector_test (freemap img_one_free) 40 \<and>
   (case add_block lab_h img_one_free file10 of (r, s', oi') \<Rightarrow>
      r = ENOSPC \<and> oi_indirect oi' = 40 \<and> \<not> bitvector_test (freemap s') 40)"
  unfolding add_block_file10
  by (simp add: test_one_free) (simp add: file10_def blank_inode_def bitvector_test_def)

text \<open>
  C3.  The claim: \<^verbatim>\<open>remove_block\<close> returns \<open>EIO\<close> whenever an indirect block that should
  exist is missing.  The inode \<open>file11_no_indirect\<close> has eleven blocks by its size and no
  indirect block; \<^verbatim>\<open>remove_block\<close> takes block 0 for the indirect block, returns
  \<open>OK\<close> and sets the size to ten blocks.
\<close>

theorem remove_block_missing_indirect_ok:
  "oi_indirect file11_no_indirect = 0 \<and>
   ospfs_size2nblocks (oi_size file11_no_indirect) = 11 \<and>
   (case remove_block lab_h img_one_free file11_no_indirect of (r, s', oi') \<Rightarrow>
      r = OK \<and> oi_size oi' = 10240)"
  by (simp add: remove_block_def nb_consts index_10 Let_def file11_no_indirect_def file10_def
        blank_inode_def hdr_defs)

subsection \<open>The allocator\<close>

text \<open>
  C4.  The claim: \<^verbatim>\<open>allocate_block\<close> followed by \<^verbatim>\<open>free_block\<close> of the block it
  returned leaves the bitmap as it was.  On the image with 32 inodes the free block 40 is
  allocated, and \<^verbatim>\<open>free_block(40)\<close> returns at its sanity check, since 40 is not
  below \<open>os_ninodes\<close>: the bit of block 40 stays 0.
\<close>

theorem allocate_then_free_not_restored:
  "bitvector_test (freemap img_few_inodes) 40 \<and>
   (case allocate_block img_few_inodes of (b, s') \<Rightarrow>
      b = 40 \<and> \<not> bitvector_test (freemap (free_block lab_h s' b)) 40)"
  unfolding allocate_block_def OSPFS_FREEMAP_BLK_def
  by (simp add: allocate_block_from.simps bitvector_test_def bitvector_clear_def
      img_few_inodes_def free_block_def lab_h_def)

subsection \<open>The block index\<close>

text \<open>
  C7.  \<^verbatim>\<open>ospfs_inode_blockno\<close>, with its arithmetic on 32-bit words, is the block index
  of the spec: 0 when the offset is at or behind the size or the inode is a symbolic
  link, and otherwise the direct slot, the slot of the indirect block or the slot under
  the doubly indirect block that the block number \<open>off div BLKSIZE\<close> selects.
\<close>

theorem ospfs_inode_blockno_spec:
  "ospfs_inode_blockno h s oi off = block_of_spec h s oi off"
proof -
  define b where "b = off div (1024 :: 32 word)"
  have ub: "unat b = unat off div 1024" by (simp add: b_def unat_div)
  have ge266: "b \<ge> 266 \<longleftrightarrow> \<not> unat b < 266" by (simp add: word_le_nat_alt not_less)
  have ge10: "b \<ge> 10 \<longleftrightarrow> \<not> unat b < 10" by (simp add: word_le_nat_alt not_less)
  have sz: "off \<ge> oi_size oi \<longleftrightarrow> unat off \<ge> unat (oi_size oi)" by (simp add: word_le_nat_alt)
  have s10: "b - 10 = of_nat (unat b - 10)" if "\<not> unat b < 10"
  proof -
    have "(10::32 word) \<le> b" using that ge10 by simp
    then have "unat (b - 10) = unat b - 10" by (simp add: unat_sub)
    then show ?thesis by (metis of_nat_unat ucast_id)
  qed
  have s266: "unat (b - 266) = unat b - 266" if "\<not> unat b < 266"
  proof -
    have "(266::32 word) \<le> b" using that ge266 by simp
    then show ?thesis by (simp add: unat_sub)
  qed
  have d: "(b - 266) div 256 = of_nat ((unat b - 266) div 256)" if "\<not> unat b < 266"
  proof -
    have "unat ((b - 266) div 256) = (unat b - 266) div 256"
      using s266 [OF that] by (simp add: unat_div)
    then show ?thesis by (metis of_nat_unat ucast_id)
  qed
  have m: "(b - 266) mod 256 = of_nat ((unat b - 266) mod 256)" if "\<not> unat b < 266"
  proof -
    have "unat ((b - 266) mod 256) = (unat b - 266) mod 256"
      using s266 [OF that] by (simp add: unat_mod)
    then show ?thesis by (metis of_nat_unat ucast_id)
  qed
  show ?thesis
    unfolding ospfs_inode_blockno_def block_of_spec_def OSPFS_BLKSIZE_def OSPFS_NDIRECT_def
      OSPFS_NINDIRECT_def Let_def
    using ge266 ge10 sz s10 d m ub
    by (auto simp: b_def [symmetric])
qed

subsection \<open>Overflow of the position in read and write\<close>

lemma sint_ucast_count: "sint (ucast (count :: 32 word) :: 64 word) = uint count"
proof -
  have b: "0 \<le> uint count" "uint count < 2 ^ 32" using uint_lt2p [of count] by simp_all
  then have t: "take_bit 64 (uint count) = uint count"
    by (simp add: take_bit_eq_mod)
  have lo: "- (2 ^ 63) \<le> uint count" by (rule order_trans [OF _ b(1)]) simp
  have hi: "uint count < 2 ^ 63" by (rule less_trans [OF b(2)]) simp
  have "signed_take_bit 63 (uint count) = uint count"
    using lo hi by (rule signed_take_bit_int_eq_self)
  then show ?thesis by (simp add: sint_uint unsigned_ucast_eq t)
qed

lemma sint_add_overflow:
  fixes pos :: "64 word" and count :: "32 word"
  assumes "sint pos + uint count > 2 ^ 63 - 1"
  shows "pos + ucast count <s pos"
proof -
  define S where "S = sint pos + uint count"
  have c: "0 \<le> uint count" "uint count < 2 ^ 32" using uint_lt2p [of count] by simp_all
  have p: "sint pos < 2 ^ 63" using sint_lt [of pos] by simp
  have lo: "2 ^ 63 \<le> S" using assms by (simp add: S_def)
  have hi: "S < 2 ^ 64" using p c by (simp add: S_def)
  have "(S + 2 ^ 63) mod 2 ^ 64 = (S + 2 ^ 63 - 2 ^ 64) mod 2 ^ 64"
    by (metis mod_diff_right_eq mod_self diff_zero)
  also have "\<dots> = S + 2 ^ 63 - 2 ^ 64"
    using lo hi by (intro mod_pos_pos_trivial) simp_all
  finally have "signed_take_bit 63 S = S - 2 ^ 64"
    by (simp add: signed_take_bit_eq_take_bit_shift take_bit_eq_mod)
  then have "sint (pos + ucast count) = S - 2 ^ 64"
    by (simp add: sint_word_add sint_ucast_count S_def)
  then show ?thesis using c by (simp add: word_sless_alt S_def)
qed

text \<open>
  C10.  When the sum of the position and the count is beyond the largest \<^verbatim>\<open>loff_t\<close>,
  \<^verbatim>\<open>ospfs_read\<close> returns \<open>EIO\<close>; the position and the user memory are as before, whatever
  \<^verbatim>\<open>copy_to_user\<close> does, so nothing has been copied.  (The sum is computed in 64 bits
  and wraps around to a negative number, which the test \<^verbatim>\<open>*f_pos + count < *f_pos\<close>
  sees.)
\<close>

theorem ospfs_read_overflow_eio:
  assumes "sint (f_pos filp) + uint count > 2 ^ 63 - 1"
  shows "ospfs_read h s copy_to_user filp u buffer count = (Inl EIO, filp, u)"
  using sint_add_overflow [OF assms] by (simp add: ospfs_read_def)

theorem ospfs_read_overflow_eio_witness:
  "sint (f_pos \<lparr>f_pos = 0x7FFFFFFFFFFFFFFF, f_append = False, f_ino = 2, f_parent_ino = 1\<rparr>)
     + uint (1 :: 32 word) > 2 ^ 63 - 1 \<and>
   ospfs_read lab_h img_one_free (\<lambda>u a bs. (0, u))
       \<lparr>f_pos = 0x7FFFFFFFFFFFFFFF, f_append = False, f_ino = 2, f_parent_ino = 1\<rparr> () 0 1
     = (Inl EIO, \<lparr>f_pos = 0x7FFFFFFFFFFFFFFF, f_append = False, f_ino = 2, f_parent_ino = 1\<rparr>, ())"
  using ospfs_read_overflow_eio [of "\<lparr>f_pos = 0x7FFFFFFFFFFFFFFF, f_append = False, f_ino = 2,
      f_parent_ino = 1\<rparr>" 1 lab_h img_one_free "\<lambda>u a bs. (0, u)" "()" 0]
  by simp

text \<open>
  C6.  The claim: \<^verbatim>\<open>ospfs_write\<close> returns \<open>EIO\<close> when the sum of the position and the
  count overflows.  The function has no such test.  On the full image, writing 2049
  bytes at the largest position into the empty file of inode 2 takes the sum modulo 2^32
  for the new size, 2048, asks \<^verbatim>\<open>change_size\<close> for it and returns its \<open>ENOSPC\<close>.
\<close>

definition empty_file :: ospfs_inode where
  "empty_file = blank_inode \<lparr> oi_nlink := 1 \<rparr>"

definition img_full_file :: ospfs_fs where
  "img_full_file = img_full \<lparr> inodes := (\<lambda>_. blank_inode)(2 := empty_file) \<rparr>"

theorem ospfs_write_overflow_enospc:
  "sint (0x7FFFFFFFFFFFFFFF :: 64 word) + uint (2049 :: 32 word) > 2 ^ 63 - 1 \<and>
   fst (ospfs_write lab_h img_full_file copy_from_user
          \<lparr>f_pos = 0x7FFFFFFFFFFFFFFF, f_append = False, f_ino = 2, f_parent_ino = 1\<rparr>
          u buffer 2049) = Inl ENOSPC"
proof -
  have fm: "freemap img_full_file = (\<lambda>_. 0)" by (simp add: img_full_file_def)
  have nb: "ospfs_size2nblocks 0 = 0" "ospfs_size2nblocks 2048 = 2"
    by (simp_all add: ospfs_size2nblocks_def hdr_defs)
  have ix: "indir_index 0 = - 1" "direct_index 0 = 0"
    by (simp_all add: indir_index_def direct_index_def hdr_defs)
  have f: "oi_size empty_file = 0" "oi_direct empty_file 0 = 0"
    by (simp_all add: empty_file_def blank_inode_def)
  have ab: "add_block lab_h img_full_file empty_file = (ENOSPC, img_full_file, empty_file)"
    by (simp add: add_block_def nb ix f alloc_none [OF fm] lab_h_def free_block_def)
  have g: "change_size_grow lab_h img_full_file empty_file 2048
      = (ENOSPC, img_full_file, empty_file)"
    by (subst change_size_grow.simps) (simp add: nb ab f)
  have sh: "change_size_shrink lab_h img_full_file empty_file 0
      = (OK, img_full_file, empty_file)"
    by (subst change_size_shrink.simps) (simp add: nb f)
  have cs: "change_size lab_h img_full_file empty_file 2048
      = (ENOSPC, img_full_file, empty_file\<lparr>oi_size := 0\<rparr>)"
    by (simp add: change_size_def g f sh)
  have ino: "ospfs_inode img_full_file 2 = Some 2" "inodes img_full_file 2 = empty_file"
    by (simp_all add: ospfs_inode_def img_full_file_def img_full_def img_one_free_def)
  have ns: "(9223372036854777856 :: 32 word) = 2048" by simp
  show ?thesis
    by (simp add: ospfs_write_def ino f ns cs Let_def)
qed

subsection \<open>Unlink and the link count of the directory\<close>

lemma lab_h_simps:
  "OSPFS_MAXFILEBLKS lab_h = 65802" "OSPFS_BLKINODES lab_h = 16"
  "OSPFS_DIRENTRY_SIZE lab_h = 128" "OSPFS_MAXNAMELEN lab_h = 123"
  "OSPFS_MAXSYMLINKLEN lab_h = 51" "OSPFS_FTYPE_REG lab_h = 0" "OSPFS_FTYPE_DIR lab_h = 1"
  "OSPFS_FTYPE_SYMLINK lab_h = 2"
  by (simp_all add: lab_h_def)

lemma img_dir_simps:
  "os_ninodes img_dir = 64"
  "ospfs_data img_dir = (\<lambda>_. 0)(30720 := 4, 30724 := 98, 30848 := 2, 30852 := 97)"
  "inodes img_dir 3 = dir_inode" "inodes img_dir 2 = file_two_links"
  "inodes img_dir 4 = file_two_links"
  by (simp_all add: img_dir_def)

lemma dir_inode_simps:
  "oi_size dir_inode = 1024" "oi_ftype dir_inode = 1" "oi_nlink dir_inode = 1"
  "oi_direct dir_inode 0 = 30"
  by (simp_all add: dir_inode_def)

lemma file_two_links_simps:
  "oi_nlink file_two_links = 2" "oi_ftype file_two_links = 0"
  by (simp_all add: file_two_links_def blank_inode_def)

lemma dentry_a_simps:
  "d_name dentry_a = [97]" "d_ino dentry_a = 2" "d_parent_ino dentry_a = 3"
  by (simp_all add: dentry_a_def bytes_of_def)

lemma img_dir_entry:
  "ospfs_inode_data lab_h img_dir dir_inode 0 = 30720"
  "ospfs_inode_data lab_h img_dir dir_inode 128 = 30848"
  by (simp_all add: ospfs_inode_data_def ospfs_inode_blockno_def ospfs_block_def
      dir_inode_simps lab_h_simps hdr_defs)

lemma img_dir_name:
  "od_name lab_h img_dir 30720 = 98 # replicate 123 0"
  "od_name lab_h img_dir 30848 = 97 # replicate 123 0"
proof -
  have len: "length (od_name lab_h img_dir od) = 124" for od
    by (simp add: od_name_def lab_h_simps)
  show "od_name lab_h img_dir 30720 = 98 # replicate 123 0"
  proof (rule nth_equalityI)
    fix i assume "i < length (od_name lab_h img_dir 30720)"
    then have "i < 124" by (simp only: len)
    then show "od_name lab_h img_dir 30720 ! i = (98 # replicate 123 0) ! i"
      by (cases i) (simp_all add: od_name_def lab_h_simps img_dir_simps)
  qed (simp add: len)
  show "od_name lab_h img_dir 30848 = 97 # replicate 123 0"
  proof (rule nth_equalityI)
    fix i assume "i < length (od_name lab_h img_dir 30848)"
    then have "i < 124" by (simp only: len)
    then show "od_name lab_h img_dir 30848 ! i = (97 # replicate 123 0) ! i"
      by (cases i) (simp_all add: od_name_def lab_h_simps img_dir_simps)
  qed (simp add: len)
qed

lemma img_dir_ino: "od_ino img_dir 30720 = 4" "od_ino img_dir 30848 = 2"
  by (simp_all add: od_ino_def get32_def img_dir_simps)

lemma img_dir_match:
  "\<not> direntry_match lab_h img_dir 30720 [97]" "direntry_match lab_h img_dir 30848 [97]"
  by (simp_all add: direntry_match_def img_dir_name strlen_def c_string_def img_dir_ino)

lemma img_dir_loop:
  "unlink_loop lab_h img_dir dir_inode [97] 0 None = Some (128, Some 30848)"
  by (subst unlink_loop.simps, simp add: img_dir_entry img_dir_match dir_inode_simps lab_h_simps,
      subst unlink_loop.simps, simp add: img_dir_entry img_dir_match dir_inode_simps)

lemma img_dir_inode: "ospfs_inode img_dir 3 = Some 3" "ospfs_inode img_dir 2 = Some 2"
  by (simp_all add: ospfs_inode_def img_dir_simps)

lemma img_dir_inode_5: "inodes img_dir 5 = blank_inode"
  by (simp add: img_dir_def)

text \<open>
  C5.  The claim: \<^verbatim>\<open>unlink\<close> leaves the link count of the directory unchanged.  On the
  image \<open>img_dir\<close>, removing the name \<open>a\<close> from the directory of inode 3 clears the entry
  and takes one link from inode 2, and the link count of the directory goes from 1 to 0:
  the directory still holds the name \<open>b\<close>, and \<^verbatim>\<open>find_free_inode\<close>, which gave inode 5
  before, now gives the inode of the directory.
\<close>

theorem ospfs_unlink_lowers_dir_nlink:
  "(case ospfs_unlink lab_h img_dir dentry_a of
      Some (r, s') \<Rightarrow> r = OK \<and> oi_nlink (inodes s' 3) = 0 \<and> oi_nlink (inodes s' 2) = 1
        \<and> od_ino s' 30848 = 0 \<and> find_free_inode s' = 3
    | None \<Rightarrow> False)
   \<and> oi_nlink (inodes img_dir 3) = 1 \<and> oi_ftype (inodes img_dir 3) = OSPFS_FTYPE_DIR lab_h
   \<and> od_ino img_dir 30848 = 2 \<and> find_free_inode img_dir = 5"
proof -
  define s' where "s' = img_dir\<lparr>ospfs_data := put32 (ospfs_data img_dir) 30848 0,
      inodes := (inodes img_dir)(2 := file_two_links\<lparr>oi_nlink := 1\<rparr>,
                                  3 := dir_inode\<lparr>oi_nlink := 0\<rparr>)\<rparr>"
  have u: "ospfs_unlink lab_h img_dir dentry_a = Some (OK, s')"
    by (simp add: ospfs_unlink_def img_dir_inode img_dir_loop img_dir_simps dir_inode_simps
        file_two_links_simps dentry_a_simps lab_h_simps Let_def s'_def)
  have s': "os_ninodes s' = 64" "oi_nlink (inodes s' 2) = 1" "oi_nlink (inodes s' 3) = 0"
    by (simp_all add: s'_def img_dir_simps)
  have "find_free_inode_from s' 3 = 3"
    by (subst find_free_inode_from.simps) (simp add: s')
  then have "find_free_inode_from s' 2 = 3"
    by (subst find_free_inode_from.simps) (simp add: s')
  then have f: "find_free_inode s' = 3" by (simp add: find_free_inode_def)
  have "find_free_inode_from img_dir 5 = 5"
    by (subst find_free_inode_from.simps) (simp add: img_dir_simps img_dir_inode_5 blank_inode_def)
  then have "find_free_inode_from img_dir 4 = 5"
    by (subst find_free_inode_from.simps) (simp add: img_dir_simps file_two_links_simps)
  then have "find_free_inode_from img_dir 3 = 5"
    by (subst find_free_inode_from.simps) (simp add: img_dir_simps dir_inode_simps)
  then have "find_free_inode_from img_dir 2 = 5"
    by (subst find_free_inode_from.simps) (simp add: img_dir_simps file_two_links_simps)
  then have f0: "find_free_inode img_dir = 5" by (simp add: find_free_inode_def)
  have z: "od_ino s' 30848 = 0"
    by (simp add: s'_def od_ino_def get32_def put32_def)
  show ?thesis
    by (simp add: u s' z f f0 img_dir_simps dir_inode_simps img_dir_ino lab_h_simps)
qed

subsection \<open>Reading a directory\<close>






text \<open>
  Cursors and entry offsets as natural numbers and as words of 32 bits.
\<close>

lemma unat_of_nat_32: "k < 2 ^ 32 \<Longrightarrow> unat (of_nat k :: 32 word) = k"
  by (simp add: unat_of_nat take_bit_nat_eq_self)








lemma dir_inode_data:
  "ospfs_inode_data lab_h s dir_inode 0 = 30720"
  "ospfs_inode_data lab_h s dir_inode 128 = 30848"
  "ospfs_inode_data lab_h s dir_inode 256 = 30976"
  "ospfs_inode_data lab_h s dir_inode 384 = 31104"
  "ospfs_inode_data lab_h s dir_inode 512 = 31232"
  "ospfs_inode_data lab_h s dir_inode 640 = 31360"
  "ospfs_inode_data lab_h s dir_inode 768 = 31488"
  "ospfs_inode_data lab_h s dir_inode 896 = 31616"
  by (simp_all add: ospfs_inode_data_def ospfs_inode_blockno_def ospfs_block_def
      dir_inode_simps lab_h_simps hdr_defs)







subsection \<open>Conditional symbolic links\<close>

text \<open>Bytes of words and of inodes, and the characters of the inode table.\<close>

lemma bit_255: "bit (255 :: int) n \<longleftrightarrow> n < 8"
proof -
  have e: "(255 :: int) = mask 8" by (simp add: mask_eq_exp_minus_1)
  show ?thesis unfolding e bit_mask_iff by auto
qed

lemma bit_byte: "bit (v :: 8 word) n \<Longrightarrow> n < 8"
  using bit_imp_le_length [of v n] by simp

lemma word_byte_put:
  "b < 4 \<Longrightarrow> b' < 4 \<Longrightarrow>
   word_byte (word_put_byte w b v) b' = (if b' = b then v else word_byte w b')"
  unfolding word_byte_def word_put_byte_def
  by (rule bit_word_eqI) (auto simp: bit_simps bit_255 dest: bit_byte)

lemma word_bytes_word:
  "ucast (word_byte w 0) OR push_bit 8 (ucast (word_byte w 1))
     OR push_bit 16 (ucast (word_byte w 2)) OR push_bit 24 (ucast (word_byte w 3)) = w"
  unfolding word_byte_def
proof (rule bit_word_eqI)
  fix n
  assume "n < LENGTH(32)"
  then have n: "n < 32" by simp
  consider "n < 8" | "8 \<le> n \<and> n < 16" | "16 \<le> n \<and> n < 24" | "24 \<le> n \<and> n < 32"
    using n by arith
  then show "bit (ucast (ucast (drop_bit (8 * 0) w) :: 8 word)
        OR push_bit 8 (ucast (ucast (drop_bit (8 * 1) w) :: 8 word))
        OR push_bit 16 (ucast (ucast (drop_bit (8 * 2) w) :: 8 word))
        OR push_bit 24 (ucast (ucast (drop_bit (8 * 3) w) :: 8 word)) :: 32 word) n = bit w n"
    by cases (auto simp: bit_simps)
qed

lemma inode_byte_put:
  "inode_byte (inode_put_byte oi b v) b' = (if b' = b then v else inode_byte oi b')"
proof -
  consider "b < 4" | "4 \<le> b \<and> b < 8" | "8 \<le> b \<and> b < 12" | "12 \<le> b" by arith
  then show ?thesis
  proof cases
    case 1
    then show ?thesis
      by (auto simp: inode_byte_def inode_put_byte_def word_byte_put)
  next
    case 2
    then have "word_byte (word_put_byte (oi_ftype oi) (b - 4) v) (b' - 4)
        = (if b' = b then v else word_byte (oi_ftype oi) (b' - 4))" if "4 \<le> b'" "b' < 8"
      using that word_byte_put [of "b - 4" "b' - 4" "oi_ftype oi" v] by auto
    then show ?thesis
      using 2 by (auto simp: inode_byte_def inode_put_byte_def)
  next
    case 3
    then have "word_byte (word_put_byte (oi_nlink oi) (b - 8) v) (b' - 8)
        = (if b' = b then v else word_byte (oi_nlink oi) (b' - 8))" if "8 \<le> b'" "b' < 12"
      using that word_byte_put [of "b - 8" "b' - 8" "oi_nlink oi" v] by auto
    then show ?thesis
      using 3 by (auto simp: inode_byte_def inode_put_byte_def)
  next
    case 4
    then show ?thesis
      by (auto simp: inode_byte_def inode_put_byte_def Let_def)
  qed
qed

lemma inode_table_frame [simp]:
  "os_ninodes (inode_table_put s p v) = os_ninodes s"
  "os_nblocks (inode_table_put s p v) = os_nblocks s"
  "os_firstinob (inode_table_put s p v) = os_firstinob s"
  by (simp_all add: inode_table_put_def)

lemma inode_table_store_frame [simp]:
  "os_ninodes (inode_table_store s p vs) = os_ninodes s"
  "os_nblocks (inode_table_store s p vs) = os_nblocks s"
  "os_firstinob (inode_table_store s p vs) = os_firstinob s"
  by (induction vs arbitrary: s p) simp_all

lemma inode_table_get_put:
  "inode_table_get (inode_table_put s p v) q = (if q = p then v else inode_table_get s q)"
proof -
  have dm: "q div OSPFS_INODESIZE = p div OSPFS_INODESIZE
      \<and> q mod OSPFS_INODESIZE = p mod OSPFS_INODESIZE \<longleftrightarrow> q = p"
    by (metis div_mult_mod_eq)
  show ?thesis
  proof (cases "p div OSPFS_INODESIZE < unat (os_ninodes s)")
    case True
    then show ?thesis
      using dm by (auto simp: inode_table_get_def inode_table_put_def inode_byte_put)
  next
    case False
    then show ?thesis
      by (auto simp: inode_table_get_def inode_table_put_def)
  qed
qed

lemma inode_table_get_store:
  "inode_table_get (inode_table_store s p vs) q
     = (if p \<le> q \<and> q < p + length vs then vs ! (q - p) else inode_table_get s q)"
proof (induction vs arbitrary: s p)
  case Nil
  show ?case by auto
next
  case (Cons v vs)
  show ?case
  proof (cases "q = p")
    case True
    then show ?thesis
      using Cons.IH [of "inode_table_put s p v" "Suc p"] by (simp add: inode_table_get_put)
  next
    case False
    then show ?thesis
      using Cons.IH [of "inode_table_put s p v" "Suc p"]
      by (auto simp: inode_table_get_put nth_Cons' Suc_diff_le)
  qed
qed

lemma inodesize: "OSPFS_INODESIZE = 64"
  by (simp add: OSPFS_INODESIZE_def OSPFS_NDIRECT_def)

lemma inode_table_get_inode:
  "e < unat (os_ninodes s) \<Longrightarrow> b < OSPFS_INODESIZE \<Longrightarrow>
   inode_table_get s (e * OSPFS_INODESIZE + b) = inode_byte (inodes s e) b"
  by (simp add: inode_table_get_def)

lemma get32_word_bytes:
  assumes "d a = word_byte w 0" "d (a + 1) = word_byte w 1" "d (a + 2) = word_byte w 2"
    "d (a + 3) = word_byte w 3"
  shows "get32 d a = w"
  by (simp only: get32_def assms word_bytes_word)

lemma inode_fields_bytes:
  assumes "e < unat (os_ninodes s)"
  shows "oi_size (inodes s e) = get32 (inode_table_get s) (e * OSPFS_INODESIZE)"
    and "oi_ftype (inodes s e) = get32 (inode_table_get s) (e * OSPFS_INODESIZE + 4)"
    and "oi_nlink (inodes s e) = get32 (inode_table_get s) (e * OSPFS_INODESIZE + 8)"
proof -
  let ?a = "e * OSPFS_INODESIZE"
  have g: "inode_table_get s (?a + k + j) = inode_byte (inodes s e) (k + j)"
    if "k + j < 12" for k j
    using that inode_table_get_inode [OF assms, of "k + j"] by (simp add: inodesize add.assoc)
  have g0: "inode_table_get s ?a = inode_byte (inodes s e) 0"
    using g [of 0 0] by simp
  have g1: "inode_table_get s (?a + j) = inode_byte (inodes s e) j" if "j < 12" for j
    using that g [of 0 j] by simp
  have "get32 (inode_table_get s) ?a = oi_size (inodes s e)"
  proof (rule get32_word_bytes)
    show "inode_table_get s ?a = word_byte (oi_size (inodes s e)) 0"
      using g0 by (simp add: inode_byte_def)
    show "inode_table_get s (?a + 1) = word_byte (oi_size (inodes s e)) 1"
      using g1 [of 1] by (simp add: inode_byte_def)
    show "inode_table_get s (?a + 2) = word_byte (oi_size (inodes s e)) 2"
      using g1 [of 2] by (simp add: inode_byte_def)
    show "inode_table_get s (?a + 3) = word_byte (oi_size (inodes s e)) 3"
      using g1 [of 3] by (simp add: inode_byte_def)
  qed
  then show "oi_size (inodes s e) = get32 (inode_table_get s) ?a" by simp
  have "get32 (inode_table_get s) (?a + 4) = oi_ftype (inodes s e)"
  proof (rule get32_word_bytes)
    show "inode_table_get s (?a + 4) = word_byte (oi_ftype (inodes s e)) 0"
      using g1 [of 4] by (simp add: inode_byte_def)
    show "inode_table_get s (?a + 4 + 1) = word_byte (oi_ftype (inodes s e)) 1"
      using g [of 4 1] by (simp add: inode_byte_def)
    show "inode_table_get s (?a + 4 + 2) = word_byte (oi_ftype (inodes s e)) 2"
      using g [of 4 2] by (simp add: inode_byte_def)
    show "inode_table_get s (?a + 4 + 3) = word_byte (oi_ftype (inodes s e)) 3"
      using g [of 4 3] by (simp add: inode_byte_def)
  qed
  then show "oi_ftype (inodes s e) = get32 (inode_table_get s) (?a + 4)" by simp
  have "get32 (inode_table_get s) (?a + 8) = oi_nlink (inodes s e)"
  proof (rule get32_word_bytes)
    show "inode_table_get s (?a + 8) = word_byte (oi_nlink (inodes s e)) 0"
      using g1 [of 8] by (simp add: inode_byte_def)
    show "inode_table_get s (?a + 8 + 1) = word_byte (oi_nlink (inodes s e)) 1"
      using g [of 8 1] by (simp add: inode_byte_def)
    show "inode_table_get s (?a + 8 + 2) = word_byte (oi_nlink (inodes s e)) 2"
      using g [of 8 2] by (simp add: inode_byte_def)
    show "inode_table_get s (?a + 8 + 3) = word_byte (oi_nlink (inodes s e)) 3"
      using g [of 8 3] by (simp add: inode_byte_def)
  qed
  then show "oi_nlink (inodes s e) = get32 (inode_table_get s) (?a + 8)" by simp
qed

lemma strlen_from_eq:
  assumes "ospfs_block (os_firstinob s) + p + n < unat (os_nblocks s) * unat OSPFS_BLKSIZE"
    and "\<forall>i<n. inode_table_get s (p + i) \<noteq> 0"
    and "inode_table_get s (p + n) = 0"
  shows "strlen_from s p = Some n"
  using assms
proof (induction n arbitrary: p)
  case 0
  then show ?case by (subst strlen_from.simps) simp
next
  case (Suc n)
  have "\<forall>i<n. inode_table_get s (Suc p + i) \<noteq> 0"
  proof (intro allI impI)
    fix i assume "i < n"
    then show "inode_table_get s (Suc p + i) \<noteq> 0"
      using Suc.prems(2) [rule_format, of "Suc i"] by simp
  qed
  then have "strlen_from s (Suc p) = Some n"
    using Suc.prems(1,3) by (intro Suc.IH) simp_all
  moreover have "inode_table_get s p \<noteq> 0" using Suc.prems(2) [rule_format, of 0] by simp
  ultimately show ?case
    using Suc.prems(1) by (subst strlen_from.simps) simp
qed

text \<open>Strings without the character 0, and what the branch of the conditional link stores.\<close>

lemma c_string_no_nul: "0 \<notin> set cs \<Longrightarrow> c_string cs = cs"
  by (auto simp: c_string_def takeWhile_eq_all_conv)

lemma c_string_append_nul: "0 \<notin> set cs \<Longrightarrow> c_string (cs @ 0 # rest) = cs"
  by (auto simp: c_string_def takeWhile_tail)

lemma strlen_no_nul: "0 \<notin> set cs \<Longrightarrow> strlen cs = length cs"
  by (simp add: strlen_def c_string_no_nul)

lemma strpbrk_found:
  assumes "0 \<notin> set (pre @ c # post)" and "c \<notin> set pre"
  shows "strpbrk (pre @ c # post) [c] = Some (length pre)"
proof -
  have "takeWhile (\<lambda>x. x \<notin> set [c]) (pre @ c # post) = pre"
    using assms(2) by (auto simp: takeWhile_tail)
  then show ?thesis
    using assms(1) by (simp add: strpbrk_def c_string_no_nul strlen_no_nul Let_def)
qed

lemma bytes_of_qmark_colon: "bytes_of ''?'' = [63]" "bytes_of '':'' = [58]"
  by (simp_all add: bytes_of_def)

lemma inode_div_mod:
  "q div 64 = e \<and> q mod 64 < b \<longleftrightarrow> e * 64 \<le> q \<and> q < e * 64 + b" if "b \<le> 64" for q e b :: nat
proof
  assume "q div 64 = e \<and> q mod 64 < b"
  then have "q = e * 64 + q mod 64" "q mod 64 < b" by auto
  then show "e * 64 \<le> q \<and> q < e * 64 + b" by linarith
next
  assume a: "e * 64 \<le> q \<and> q < e * 64 + b"
  define j where "j = q - e * 64"
  have q: "q = j + e * 64" using a unfolding j_def by arith
  have j: "j < b" using a unfolding j_def by arith
  then have "j < 64" using that by simp
  then have "q div 64 = e" "q mod 64 = j" by (simp_all add: q)
  then show "q div 64 = e \<and> q mod 64 < b" using j by simp
qed

lemma inode_mod_diff: "q div 64 = e \<Longrightarrow> q - e * 64 = q mod 64" for q e :: nat
  using div_mult_mod_eq [of q 64] by simp

lemma inode_byte_set_fields:
  "inode_byte (oi\<lparr>oi_size := w\<rparr>) b = (if b < 4 then word_byte w b else inode_byte oi b)"
  "inode_byte (oi\<lparr>oi_ftype := w\<rparr>) b
     = (if 4 \<le> b \<and> b < 8 then word_byte w (b - 4) else inode_byte oi b)"
  "inode_byte (oi\<lparr>oi_nlink := w\<rparr>) b
     = (if 8 \<le> b \<and> b < 12 then word_byte w (b - 8) else inode_byte oi b)"
  by (simp_all add: inode_byte_def)

lemma inode_table_get_set_size:
  "inode_table_get (s\<lparr>inodes := (inodes s)(e := (inodes s e)\<lparr>oi_size := w\<rparr>)\<rparr>) q
     = (if e < unat (os_ninodes s) \<and> e * OSPFS_INODESIZE \<le> q \<and> q < e * OSPFS_INODESIZE + 4
        then word_byte w (q - e * OSPFS_INODESIZE) else inode_table_get s q)"
proof (cases "q div 64 = e")
  case True
  have "q mod 64 < 4 \<longleftrightarrow> e * 64 \<le> q \<and> q < e * 64 + 4"
    using inode_div_mod [of 4 q e] True by simp
  then show ?thesis
    using True inode_mod_diff [OF True]
    by (simp add: inode_table_get_def inodesize inode_byte_set_fields)
next
  case False
  then have "\<not> (e * 64 \<le> q \<and> q < e * 64 + 4)"
    using inode_div_mod [of 4 q e] by simp
  then show ?thesis
    using False by (auto simp: inode_table_get_def inodesize)
qed

lemma inode_table_get_inodes_upd:
  "inode_table_get (s\<lparr>inodes := (inodes s)(e := oi)\<rparr>) q
     = (if q div OSPFS_INODESIZE = e \<and> e < unat (os_ninodes s)
        then inode_byte oi (q mod OSPFS_INODESIZE) else inode_table_get s q)"
  by (auto simp: inode_table_get_def)

lemma inode_table_get_data_upd:
  "q div OSPFS_INODESIZE < unat (os_ninodes s) \<Longrightarrow>
   inode_table_get (s\<lparr>ospfs_data := d\<rparr>) q = inode_table_get s q"
  "q div OSPFS_INODESIZE < unat (os_ninodes s) \<Longrightarrow>
   inode_table_get (store_bytes s a bs) q = inode_table_get s q"
  by (simp_all add: inode_table_get_def store_bytes_def)

lemma inode_size_bytes:
  assumes e: "e < unat (os_ninodes s)"
    and b: "\<And>j. j < 4 \<Longrightarrow> inode_table_get s (e * OSPFS_INODESIZE + j) = word_byte w j"
  shows "oi_size (inodes s e) = w"
  unfolding inode_fields_bytes(1) [OF e]
  using b [of 0] b [of 1] b [of 2] b [of 3] by (intro get32_word_bytes) simp_all

lemma symlink_encode_conditional:
  assumes sym: "symname = pre @ 63 # root @ 58 # other"
    and nz: "0 \<notin> set symname"
    and pre: "63 \<notin> set pre" "58 \<notin> set pre"
    and root: "58 \<notin> set root"
    and len: "length root + length other + 3 \<le> OSPFS_MAXNAMELEN h"
    and e: "e < unat (os_ninodes s)"
    and n32: "length root + length other + 3 < 2 ^ 32"
  shows "\<exists>s'. symlink_encode h s e symname = Inr s'
    \<and> os_ninodes s' = os_ninodes s \<and> os_nblocks s' = os_nblocks s
    \<and> os_firstinob s' = os_firstinob s
    \<and> (\<forall>q. inode_table_get s' q =
          (if symlink_addr e 0 \<le> q \<and> q < symlink_addr e 0 + (length root + length other + 4)
           then (63 # root @ 0 # 58 # other @ [0]) ! (q - symlink_addr e 0)
           else if e * OSPFS_INODESIZE \<le> q \<and> q < e * OSPFS_INODESIZE + 4
           then word_byte (of_nat (length root + length other + 3)) (q - e * OSPFS_INODESIZE)
           else inode_table_get s q))"
proof -
  let ?r = "length root" and ?o = "length other"
  let ?n = "Suc (Suc (Suc (length root + length other)))"
  have q: "strpbrk symname (bytes_of ''?'') = Some (length pre)"
    using strpbrk_found [of pre 63 "root @ 58 # other"] nz pre
    by (simp add: sym bytes_of_qmark_colon)
  have c: "strpbrk symname (bytes_of '':'') = Some (Suc (length pre + length root))"
    using strpbrk_found [of "pre @ 63 # root" 58 other] nz pre root
    by (simp add: sym bytes_of_qmark_colon)
  have dq: "drop (length pre) symname = 63 # root @ 58 # other" by (simp add: sym)
  have dc: "drop (Suc (length pre + length root)) symname = 58 # other" by (simp add: sym)
  have nzq: "0 \<notin> set (63 # root @ 58 # other)" using nz by (simp add: sym)
  have nzc: "0 \<notin> set (58 # other)" using nz by (simp add: sym)
  have l1: "strlen (63 # root @ 58 # other) = Suc (Suc (length root + length other))"
    using strlen_no_nul [OF nzq] by simp
  have l2: "strlen (58 # other) = Suc (length other)"
    using strlen_no_nul [OF nzc] by simp
  have c1: "strncpy (63 # root @ 58 # other) (Suc (length root)) = 63 # root"
    using c_string_no_nul [OF nzq] by (simp add: strncpy_def l1)
  have c2: "strncpy (58 # other) (Suc (length other)) = 58 # other"
    using c_string_no_nul [OF nzc] by (simp add: strncpy_def l2)
  define s1 where "s1 = s\<lparr>inodes := (inodes s)(e := (inodes s e)\<lparr>oi_size := of_nat ?n\<rparr>)\<rparr>"
  define s2 where "s2 = inode_table_store s1 (symlink_addr e 0) (63 # root)"
  define s3 where "s3 = inode_table_put s2 (symlink_addr e (Suc ?r)) 0"
  define s4 where "s4 = inode_table_store s3 (symlink_addr e (Suc (Suc ?r))) (58 # other)"
  define s5 where "s5 = inode_table_put s4 (symlink_addr e (unat (oi_size (inodes s4 e)))) 0"
  have enc: "symlink_encode h s e symname = Inr s5"
    using len
    by (simp add: symlink_encode_def q c dq dc l1 l2 c1 c2 Let_def
        s1_def s2_def s3_def s4_def s5_def)
  have fr: "os_ninodes s4 = os_ninodes s" "os_ninodes s5 = os_ninodes s"
    "os_nblocks s5 = os_nblocks s" "os_firstinob s5 = os_firstinob s"
    by (simp_all add: s1_def s2_def s3_def s4_def s5_def)
  let ?a = "symlink_addr e 0"
  have a: "symlink_addr e i = e * OSPFS_INODESIZE + 12 + i" for i
    by (simp add: symlink_addr_def)
  have g1: "inode_table_get s1 x =
      (if e * OSPFS_INODESIZE \<le> x \<and> x < e * OSPFS_INODESIZE + 4
       then word_byte (of_nat ?n) (x - e * OSPFS_INODESIZE) else inode_table_get s x)" for x
    using e by (simp add: s1_def inode_table_get_set_size)
  have g4: "inode_table_get s4 x =
      (if ?a + Suc (Suc ?r) \<le> x \<and> x < ?a + ?n then (58 # other) ! (x - (?a + Suc (Suc ?r)))
       else if x = ?a + Suc ?r then 0
       else if ?a \<le> x \<and> x < ?a + Suc ?r then (63 # root) ! (x - ?a)
       else inode_table_get s1 x)" for x
    by (simp add: s4_def s3_def s2_def inode_table_get_store inode_table_get_put a)
  have "oi_size (inodes s4 e) = of_nat ?n"
  proof (rule inode_size_bytes)
    show "e < unat (os_ninodes s4)" using e fr by simp
    fix j :: nat assume "j < 4"
    then show "inode_table_get s4 (e * OSPFS_INODESIZE + j) = word_byte (of_nat ?n) j"
      by (simp add: g4 g1 a)
  qed
  moreover have "unat (of_nat ?n :: 32 word) = ?n"
    using n32 by (intro unat_of_nat_32) simp
  ultimately have sz: "unat (oi_size (inodes s4 e)) = ?n" by simp
  have g5: "inode_table_get s5 x = (if x = ?a + ?n then 0 else inode_table_get s4 x)" for x
    by (simp add: s5_def sz inode_table_get_put a)
  have tab: "inode_table_get s5 x =
      (if ?a \<le> x \<and> x < ?a + (?r + ?o + 4) then (63 # root @ 0 # 58 # other @ [0]) ! (x - ?a)
       else if e * OSPFS_INODESIZE \<le> x \<and> x < e * OSPFS_INODESIZE + 4
       then word_byte (of_nat (?r + ?o + 3)) (x - e * OSPFS_INODESIZE)
       else inode_table_get s x)" for x
  proof (cases "?a \<le> x \<and> x < ?a + (?r + ?o + 4)")
    case False
    have w: "(of_nat ?n :: 32 word) = of_nat (?r + ?o + 3)" by simp
    from False show ?thesis unfolding g5 g4 g1 w by auto
  next
    case True
    define i where "i = x - ?a"
    have x: "x = ?a + i" using True unfolding i_def by arith
    have i: "i < ?r + ?o + 4" using True unfolding i_def by arith
    consider "i < Suc ?r" | "i = Suc ?r" | "Suc (Suc ?r) \<le> i \<and> i < ?n" | "i = ?n"
      using i by arith
    then have "inode_table_get s5 (?a + i) = (63 # root @ 0 # 58 # other @ [0]) ! i"
    proof cases
      case 1
      then have "inode_table_get s5 (?a + i) = (63 # root) ! i" by (simp add: g5 g4)
      also have "\<dots> = ((63 # root) @ 0 # 58 # other @ [0]) ! i"
        using 1 by (simp only: nth_append length_Cons if_True)
      finally show ?thesis by simp
    next
      case 2
      then have "inode_table_get s5 (?a + i) = 0" by (simp add: g5 g4)
      moreover have "((63 # root) @ 0 # 58 # other @ [0]) ! i = 0"
        using 2 nth_append_length [of "63 # root" 0 "58 # other @ [0]"]
        by (simp only: length_Cons)
      ultimately show ?thesis by simp
    next
      case 3
      define j where "j = i - Suc (Suc ?r)"
      have ij: "i = Suc (Suc ?r) + j" using 3 unfolding j_def by arith
      have j: "j < Suc ?o" using 3 unfolding j_def by arith
      have "inode_table_get s5 (?a + i) = (58 # other) ! j" using 3 j by (simp add: g5 g4 ij)
      also have "\<dots> = ((58 # other) @ [0]) ! j"
        using j nth_append [of "58 # other" "[0]" j] by (simp only: length_Cons if_True)
      also have "\<dots> = ((63 # root @ [0]) @ (58 # other) @ [0]) ! (Suc (Suc ?r) + j)"
        using nth_append_length_plus [of "63 # root @ [0]" "(58 # other) @ [0]" j]
        by simp
      finally show ?thesis by (simp add: ij)
    next
      case 4
      have "inode_table_get s5 (?a + i) = 0" using 4 by (simp add: g5)
      moreover have "((63 # root @ 0 # 58 # other) @ [0]) ! ?n = 0"
        using nth_append_length [of "63 # root @ 0 # 58 # other" 0 "[]"]
        by (simp add: numeral_3_eq_3)
      ultimately show ?thesis using 4 by simp
    qed
    then show ?thesis using True x by simp
  qed
  show ?thesis
    using enc fr tab by (intro exI [of _ s5]) simp
qed

text \<open>Strings read from the inode table.\<close>

lemma inode_byte_set_ftype_nlink:
  "inode_byte (oi\<lparr>oi_ftype := f, oi_nlink := n\<rparr>) b
     = (if 4 \<le> b \<and> b < 8 then word_byte f (b - 4)
        else if 8 \<le> b \<and> b < 12 then word_byte n (b - 8) else inode_byte oi b)"
  by (simp add: inode_byte_def)

lemma map_upt_eq: "(\<And>i. i < length bs \<Longrightarrow> f (a + i) = bs ! i) \<Longrightarrow> map f [a..<a + length bs] = bs"
  by (rule nth_equalityI) simp_all

lemma strlen_from_table:
  assumes tab: "map (inode_table_get s) [p..<p + (length bs + 1)] = bs @ [0]"
    and nz: "0 \<notin> set bs"
    and img: "ospfs_block (os_firstinob s) + p + length bs < unat (os_nblocks s) * unat OSPFS_BLKSIZE"
  shows "strlen_from s p = Some (length bs)" and "c_string_from s p = Some bs"
proof -
  have n: "inode_table_get s (p + i) = (bs @ [0]) ! i" if "i < length bs + 1" for i
  proof -
    have "inode_table_get s (p + i) = map (inode_table_get s) [p..<p + (length bs + 1)] ! i"
      using that by (subst nth_map_upt) simp_all
    then show ?thesis unfolding tab .
  qed
  have "\<forall>i<length bs. inode_table_get s (p + i) \<noteq> 0"
  proof (intro allI impI)
    fix i assume i: "i < length bs"
    then have "inode_table_get s (p + i) = bs ! i" using n [of i] by (simp add: nth_append)
    then show "inode_table_get s (p + i) \<noteq> 0" using nz i by (metis nth_mem)
  qed
  moreover have "inode_table_get s (p + length bs) = 0"
    using n [of "length bs"] by simp
  ultimately show l: "strlen_from s p = Some (length bs)"
    using img by (intro strlen_from_eq) simp_all
  have "map (inode_table_get s) [p..<p + length bs] = bs"
    using n by (intro map_upt_eq) (simp add: nth_append)
  then show "c_string_from s p = Some bs"
    by (simp add: c_string_from_def l)
qed

lemma map_upt_drop_take:
  "map f [a + i..<a + i + n] = take n (drop i (map f [a..<a + m]))" if "i + n \<le> m"
  using that by (simp add: drop_map take_map add.assoc)

text \<open>The image \<open>img_dir_free2\<close>.\<close>

lemma img_dir_free2_simps:
  "os_ninodes img_dir_free2 = 64" "os_nblocks img_dir_free2 = 64"
  "os_firstinob img_dir_free2 = 3"
  "ospfs_data img_dir_free2 = (\<lambda>_. 0)(30720 := 4, 30724 := 98)"
  "inodes img_dir_free2 2 = blank_inode" "inodes img_dir_free2 3 = dir_inode"
  by (simp_all add: img_dir_free2_def)

lemma img_dir_free2_inode:
  "ospfs_inode img_dir_free2 2 = Some 2" "ospfs_inode img_dir_free2 3 = Some 3"
  by (simp_all add: ospfs_inode_def img_dir_free2_simps)

lemma img_dir_free2_ino:
  "od_ino img_dir_free2 30720 = 4" "od_ino img_dir_free2 30848 = 0"
  "od_ino img_dir_free2 30976 = 0" "od_ino img_dir_free2 31104 = 0"
  "od_ino img_dir_free2 31232 = 0" "od_ino img_dir_free2 31360 = 0"
  "od_ino img_dir_free2 31488 = 0" "od_ino img_dir_free2 31616 = 0"
  by (simp_all add: od_ino_def get32_def img_dir_free2_simps)

lemma img_dir_free2_free_inode: "find_free_inode img_dir_free2 = 2"
  unfolding find_free_inode_def
  by (subst find_free_inode_from.simps) (simp add: img_dir_free2_simps blank_inode_def)

lemma img_dir_free2_no_s:
  "find_direntry lab_h img_dir_free2 dir_inode (bytes_of ''s'') = Some None"
proof -
  have s: "bytes_of ''s'' = [115]" by (simp add: bytes_of_def)
  have "ospfs_data img_dir_free2 30724 \<noteq> 115" by (simp add: img_dir_free2_simps)
  then have "take 1 (od_name lab_h img_dir_free2 30720) \<noteq> [115]"
    by (simp add: od_name_def lab_h_simps upt_rec take_Suc_conv_app_nth)
  then have m: "\<not> direntry_match lab_h img_dir_free2 30720 [115]"
    by (simp add: direntry_match_def)
  have b: "\<not> direntry_match lab_h img_dir_free2 30848 name"
    "\<not> direntry_match lab_h img_dir_free2 30976 name"
    "\<not> direntry_match lab_h img_dir_free2 31104 name"
    "\<not> direntry_match lab_h img_dir_free2 31232 name"
    "\<not> direntry_match lab_h img_dir_free2 31360 name"
    "\<not> direntry_match lab_h img_dir_free2 31488 name"
    "\<not> direntry_match lab_h img_dir_free2 31616 name" for name
    by (simp_all add: direntry_match_def img_dir_free2_ino)
  have "find_direntry_loop lab_h img_dir_free2 dir_inode [115] 1024 = Some None"
    by (subst find_direntry_loop.simps) (simp add: dir_inode_simps)
  then have "find_direntry_loop lab_h img_dir_free2 dir_inode [115] 896 = Some None"
    by (subst find_direntry_loop.simps) (simp add: dir_inode_simps lab_h_simps dir_inode_data b)
  then have "find_direntry_loop lab_h img_dir_free2 dir_inode [115] 768 = Some None"
    by (subst find_direntry_loop.simps) (simp add: dir_inode_simps lab_h_simps dir_inode_data b)
  then have "find_direntry_loop lab_h img_dir_free2 dir_inode [115] 640 = Some None"
    by (subst find_direntry_loop.simps) (simp add: dir_inode_simps lab_h_simps dir_inode_data b)
  then have "find_direntry_loop lab_h img_dir_free2 dir_inode [115] 512 = Some None"
    by (subst find_direntry_loop.simps) (simp add: dir_inode_simps lab_h_simps dir_inode_data b)
  then have "find_direntry_loop lab_h img_dir_free2 dir_inode [115] 384 = Some None"
    by (subst find_direntry_loop.simps) (simp add: dir_inode_simps lab_h_simps dir_inode_data b)
  then have "find_direntry_loop lab_h img_dir_free2 dir_inode [115] 256 = Some None"
    by (subst find_direntry_loop.simps) (simp add: dir_inode_simps lab_h_simps dir_inode_data b)
  then have "find_direntry_loop lab_h img_dir_free2 dir_inode [115] 128 = Some None"
    by (subst find_direntry_loop.simps) (simp add: dir_inode_simps lab_h_simps dir_inode_data b)
  then have "find_direntry_loop lab_h img_dir_free2 dir_inode [115] 0 = Some None"
    by (subst find_direntry_loop.simps) (simp add: dir_inode_simps lab_h_simps dir_inode_data m)
  then show ?thesis by (simp add: find_direntry_def s)
qed

lemma img_dir_free2_blank_direntry:
  "create_blank_direntry lab_h img_dir_free2 dir_inode
     = Some (Inr 30848, img_dir_free2, dir_inode)"
proof -
  have "create_blank_direntry_loop lab_h img_dir_free2 dir_inode 128 = Some (128, Some 30848)"
    by (subst create_blank_direntry_loop.simps)
      (simp add: dir_inode_simps lab_h_simps dir_inode_data img_dir_free2_ino)
  then have "create_blank_direntry_loop lab_h img_dir_free2 dir_inode 0 = Some (128, Some 30848)"
    by (subst create_blank_direntry_loop.simps)
      (simp add: dir_inode_simps lab_h_simps dir_inode_data img_dir_free2_ino)
  then show ?thesis
    by (simp add: create_blank_direntry_def dir_inode_simps lab_h_simps)
qed

text \<open>Stores into the fields of an inode, seen as characters of the table.\<close>

lemma inode_table_get_inode_upd_range:
  assumes oi: "\<And>b. b < 64 \<Longrightarrow>
      inode_byte oi b = (if lo \<le> b \<and> b < hi then F b else inode_byte (inodes s e) b)"
    and hi: "hi \<le> 64"
  shows "inode_table_get (s\<lparr>inodes := (inodes s)(e := oi)\<rparr>) q
     = (if e < unat (os_ninodes s) \<and> e * OSPFS_INODESIZE + lo \<le> q
          \<and> q < e * OSPFS_INODESIZE + hi
        then F (q - e * OSPFS_INODESIZE) else inode_table_get s q)"
proof (cases "q div 64 = e")
  case True
  have m: "q mod 64 < 64" by simp
  have q: "q = e * 64 + q mod 64" using True div_mult_mod_eq [of q 64] by simp
  have "lo \<le> q mod 64 \<and> q mod 64 < hi \<longleftrightarrow> e * 64 + lo \<le> q \<and> q < e * 64 + hi"
    using q by linarith
  then show ?thesis
    using True inode_mod_diff [OF True] oi [OF m]
    by (simp add: inode_table_get_def inodesize)
next
  case False
  have "\<not> (e * 64 + lo \<le> q \<and> q < e * 64 + hi)"
  proof
    assume "e * 64 + lo \<le> q \<and> q < e * 64 + hi"
    then have "e * 64 \<le> q \<and> q < e * 64 + 64" using hi by linarith
    then show False using inode_div_mod [of 64 q e] False by simp
  qed
  then show ?thesis
    using False by (auto simp: inode_table_get_def inodesize)
qed

lemma inode_table_get_set_ftype_nlink:
  "inode_table_get (s\<lparr>inodes := (inodes s)(e := (inodes s e)\<lparr>oi_ftype := f, oi_nlink := n\<rparr>)\<rparr>) q
     = (if e < unat (os_ninodes s) \<and> e * OSPFS_INODESIZE + 4 \<le> q
          \<and> q < e * OSPFS_INODESIZE + 12
        then (if q - e * OSPFS_INODESIZE < 8 then word_byte f (q - e * OSPFS_INODESIZE - 4)
              else word_byte n (q - e * OSPFS_INODESIZE - 8))
        else inode_table_get s q)"
  by (rule inode_table_get_inode_upd_range) (auto simp: inode_byte_def)

lemma inode_table_get_set_nlink:
  "inode_table_get (s\<lparr>inodes := (inodes s)(e := (inodes s e)\<lparr>oi_nlink := n\<rparr>)\<rparr>) q
     = (if e < unat (os_ninodes s) \<and> e * OSPFS_INODESIZE + 8 \<le> q
          \<and> q < e * OSPFS_INODESIZE + 12
        then word_byte n (q - e * OSPFS_INODESIZE - 8)
        else inode_table_get s q)"
  by (rule inode_table_get_inode_upd_range) (auto simp: inode_byte_def)

text \<open>The long target on the image \<open>img_dir_free2\<close>.\<close>

lemma long_target_symlink:
  "\<exists>s'. ospfs_symlink lab_h img_dir_free2 True 3 (bytes_of ''s'')
      (bytes_of (''root?/r:/'' @ replicate 59 CHR ''a'')) = Some (OK, s')
    \<and> os_ninodes s' = 64 \<and> os_nblocks s' = 64 \<and> os_firstinob s' = 3
    \<and> map (inode_table_get s') [128..<132] = [65, 0, 0, 0]
    \<and> map (inode_table_get s') [140..<206]
      = [63, 47, 114, 0, 58, 47] @ replicate 54 97 @ 98 # replicate 4 97 @ [0]
    \<and> map (inode_table_get s') [192..<204] = replicate 8 97 @ [98, 97, 97, 97]"
proof -
  let ?t = "bytes_of (''root?/r:/'' @ replicate 59 CHR ''a'')"
  let ?L = "63 # [47, 114] @ 0 # 58 # (47 # replicate 59 97) @ [0 :: 8 word]"
  have t: "?t = bytes_of ''root'' @ 63 # [47, 114] @ 58 # (47 # replicate 59 97)"
    by (simp add: bytes_of_def)
  have "\<exists>s5. symlink_encode lab_h img_dir_free2 2 ?t = Inr s5
    \<and> os_ninodes s5 = os_ninodes img_dir_free2 \<and> os_nblocks s5 = os_nblocks img_dir_free2
    \<and> os_firstinob s5 = os_firstinob img_dir_free2
    \<and> (\<forall>q. inode_table_get s5 q =
          (if symlink_addr 2 0 \<le> q \<and> q < symlink_addr 2 0
                + (length [47, 114 :: 8 word] + length (47 # replicate 59 (97 :: 8 word)) + 4)
           then ?L ! (q - symlink_addr 2 0)
           else if 2 * OSPFS_INODESIZE \<le> q \<and> q < 2 * OSPFS_INODESIZE + 4
           then word_byte (of_nat (length [47, 114 :: 8 word]
                  + length (47 # replicate 59 (97 :: 8 word)) + 3)) (q - 2 * OSPFS_INODESIZE)
           else inode_table_get img_dir_free2 q))"
    by (rule symlink_encode_conditional [OF t])
       (simp_all add: bytes_of_def lab_h_simps img_dir_free2_simps)
  then obtain s5 where enc: "symlink_encode lab_h img_dir_free2 2 ?t = Inr s5"
    and fr5: "os_ninodes s5 = 64" "os_nblocks s5 = 64" "os_firstinob s5 = 3"
    and tab5: "\<And>q. inode_table_get s5 q =
          (if 140 \<le> q \<and> q < 206 then ?L ! (q - 140)
           else if 128 \<le> q \<and> q < 132 then word_byte 65 (q - 128)
           else inode_table_get img_dir_free2 q)"
    by (auto simp: img_dir_free2_simps symlink_addr_def inodesize)
  define s6 where "s6 = s5\<lparr>inodes := (inodes s5)(2 := (inodes s5 2)
      \<lparr>oi_ftype := OSPFS_FTYPE_SYMLINK lab_h, oi_nlink := 1\<rparr>)\<rparr>"
  define s9 where "s9 = (let s = store_bytes s6 (30848 + 4) (strncpy (bytes_of ''s'') 1);
      s = store_bytes s (30848 + 4 + 1) [0]
      in s\<lparr>ospfs_data := put32 (ospfs_data s) 30848 2\<rparr>)"
  define sf where "sf = s9\<lparr>inodes := (inodes s9)(3 := (inodes s9 3)
      \<lparr>oi_nlink := oi_nlink (inodes s9 3) + 1\<rparr>)\<rparr>"
  have self: "img_dir_free2\<lparr>inodes := (inodes img_dir_free2)(3 := dir_inode)\<rparr> = img_dir_free2"
    by (simp add: img_dir_free2_simps [symmetric])
  have len: "length (bytes_of ''s'') = 1" by (simp add: bytes_of_def)
  have ok: "ospfs_symlink lab_h img_dir_free2 True 3 (bytes_of ''s'') ?t = Some (OK, sf)"
    unfolding ospfs_symlink_def sf_def s9_def s6_def
    by (simp only: img_dir_free2_inode img_dir_free2_simps dir_inode_simps lab_h_simps
        img_dir_free2_no_s img_dir_free2_free_inode img_dir_free2_blank_direntry self enc len
        Let_def option.case prod.case sum.case) simp
  have fr9: "os_ninodes s6 = 64" "os_ninodes s9 = 64" "os_ninodes sf = 64"
    "os_nblocks sf = 64" "os_firstinob sf = 3"
    by (simp_all add: sf_def s9_def s6_def fr5 store_bytes_def Let_def)
  have g6: "inode_table_get s6 q = (if 132 \<le> q \<and> q < 140 then
      (if q - 128 < 8 then word_byte 2 (q - 128 - 4) else word_byte 1 (q - 128 - 8))
      else inode_table_get s5 q)" for q
    by (simp add: s6_def inode_table_get_set_ftype_nlink fr5 inodesize lab_h_simps)
  have g9: "inode_table_get s9 q = inode_table_get s6 q" if "q < 4096" for q
  proof -
    have "q div OSPFS_INODESIZE < 64" using that by (simp add: inodesize)
    then show ?thesis
      by (simp add: s9_def Let_def inode_table_get_data_upd fr9 store_bytes_def
          inode_table_get_def)
  qed
  have g95: "inode_table_get s9 q = inode_table_get s5 q" if "140 \<le> q" "q < 4096" for q
    using that by (simp add: g9 g6)
  have nl: "oi_nlink (inodes s9 3) = 1633771873"
  proof -
    have "oi_nlink (inodes s9 3) = get32 (inode_table_get s9) (3 * OSPFS_INODESIZE + 8)"
      by (rule inode_fields_bytes) (simp add: fr9)
    also have "\<dots> = get32 (inode_table_get s5) 200"
      by (simp add: get32_def inodesize g95)
    also have "\<dots> = 1633771873"
      by (simp add: get32_def tab5 nth_append)
    finally show ?thesis .
  qed
  have wb: "word_byte 1633771874 0 = 98" "word_byte 1633771874 1 = 97"
    "word_byte 1633771874 2 = 97" "word_byte 1633771874 3 = 97"
    "word_byte 65 0 = 65" "word_byte 65 1 = 0" "word_byte 65 2 = 0" "word_byte 65 3 = 0"
    "word_byte 1633771874 (Suc 0) = 97" "word_byte 65 (Suc 0) = 0"
    by (simp_all add: word_byte_def drop_bit_eq_div)
  have gf: "inode_table_get sf q = (if 200 \<le> q \<and> q < 204 then word_byte 1633771874 (q - 200)
      else inode_table_get s9 q)" for q
  proof -
    have "3 * OSPFS_INODESIZE + 8 \<le> q \<and> q < 3 * OSPFS_INODESIZE + 12 \<longleftrightarrow> 200 \<le> q \<and> q < 204"
      by (simp add: inodesize)
    moreover have "q - 3 * OSPFS_INODESIZE - 8 = q - 200" by (simp add: inodesize)
    ultimately show ?thesis
      by (simp add: sf_def inode_table_get_set_nlink fr9 nl)
  qed
  have sz: "map (inode_table_get sf) [128..<132] = [65, 0, 0, 0]"
    by (simp add: upt_rec gf g9 g6 tab5 wb)
  have lo: "map (inode_table_get sf) [140..<200] = [63, 47, 114, 0, 58, 47] @ replicate 54 97"
  proof (rule nth_equalityI)
    fix i assume "i < length (map (inode_table_get sf) [140..<200])"
    then have i: "i < 60" by simp
    then have "map (inode_table_get sf) [140..<200] ! i = inode_table_get sf (140 + i)"
      by (subst nth_map_upt) simp_all
    also have "\<dots> = ?L ! i"
      using i by (simp add: gf g95 tab5)
    also have "\<dots> = ([63, 47, 114, 0, 58, 47] @ replicate 54 97) ! i"
    proof (cases "i < 6")
      case True
      then consider "i = 0" | "i = 1" | "i = 2" | "i = 3" | "i = 4" | "i = 5" by arith
      then show ?thesis by cases simp_all
    next
      case False
      then have "?L ! i = 97" using i
        by (simp add: nth_Cons' nth_append)
      moreover have "([63, 47, 114, 0, 58, 47] @ replicate 54 97) ! i = (97 :: 8 word)"
        using False i by (simp add: nth_append)
      ultimately show ?thesis by simp
    qed
    finally show "map (inode_table_get sf) [140..<200] ! i
        = ([63, 47, 114, 0, 58, 47] @ replicate 54 97) ! i" .
  qed simp
  have mid: "map (inode_table_get sf) [200..<204] = [98, 97, 97, 97]"
    by (simp add: upt_rec gf wb)
  have hi: "map (inode_table_get sf) [204..<206] = [97, 0]"
    by (simp add: upt_rec gf g95 tab5 nth_append nth_Cons')
  have "[140..<206] = [140..<200] @ [200..<204] @ [204..<206]"
    using upt_add_eq_append [of 140 200 6] upt_add_eq_append [of 200 204 2] by simp
  then have "map (inode_table_get sf) [140..<206]
      = ([63, 47, 114, 0, 58, 47] @ replicate 54 97) @ [98, 97, 97, 97] @ [97, 0]"
    by (simp only: map_append lo mid hi)
  also have "\<dots> = [63, 47, 114, 0, 58, 47] @ replicate 54 97 @ 98 # replicate 4 97 @ [0]"
    by (simp add: numeral_eq_Suc)
  finally have tab: "map (inode_table_get sf) [140..<206]
      = [63, 47, 114, 0, 58, 47] @ replicate 54 97 @ 98 # replicate 4 97 @ [0]" .
  have "map (inode_table_get sf) [192..<200] = replicate 8 97"
    by (simp add: upt_rec gf g95 tab5 nth_append nth_Cons' numeral_eq_Suc)
  moreover have "[192..<204] = [192..<200] @ [200..<204]"
    using upt_add_eq_append [of 192 200 4] by simp
  ultimately have "map (inode_table_get sf) [192..<204] = replicate 8 97 @ [98, 97, 97, 97]"
    by (simp only: map_append mid)
  then show ?thesis
    using ok fr9 sz tab by (intro exI [of _ sf]) simp
qed

lemma table_take:
  "map f [a..<a + length (xs @ ys)] = xs @ ys \<Longrightarrow> map f [a..<a + length xs] = xs"
  using upt_add_eq_append [of a "a + length xs" "length ys"] by (simp add: add.assoc)

lemma table_drop:
  "map f [a..<a + length (xs @ ys)] = xs @ ys \<Longrightarrow>
   map f [a + length xs..<a + length xs + length ys] = ys"
  using upt_add_eq_append [of a "a + length xs" "length ys"] by (simp add: add.assoc)

lemma table_nth:
  "map f [a..<a + length xs] = xs \<Longrightarrow> i < length xs \<Longrightarrow> f (a + i) = xs ! i"
  using nth_map_upt [of i "a + length xs" a f] by simp

text \<open>
  C9.  The claim: following a conditional link that \<^verbatim>\<open>ospfs_symlink\<close> has accepted
  yields the root path for the user 0 and the other path for every other user.  In the
  image \<open>img_dir_free2\<close> the new link gets inode 2, the inode before that of the
  directory.  The target \<open>root?/r:/aa...a\<close> with 59 letters \<open>a\<close> passes the check against
  \<open>OSPFS_MAXNAMELEN\<close> and is stored in 66 characters from \<^verbatim>\<open>oi_symlink\<close> of inode 2
  on, 14 of them in inode 3: the call returns 0, the size, the type and the link count of
  the directory are now letters of the path, and \<^verbatim>\<open>dir_oi->oi_nlink++\<close> turns the
  letter at index 60 into \<open>b\<close>.  The user 0 gets \<open>/r\<close>; the user 1000 gets a path that is
  not the one that was given.
\<close>

theorem ospfs_symlink_long_target_changes_path:
  "(case ospfs_symlink lab_h img_dir_free2 True 3 (bytes_of ''s'')
          (bytes_of (''root?/r:/'' @ replicate 59 CHR ''a'')) of
      Some (r, s') \<Rightarrow> r = OK
        \<and> followed_link s' 2 0 = Inr (bytes_of ''/r'')
        \<and> followed_link s' 2 1000
            = Inr (bytes_of (''/'' @ replicate 54 CHR ''a'' @ ''b'' @ replicate 4 CHR ''a''))
        \<and> oi_size (inodes s' 3) = 0x61616161 \<and> oi_ftype (inodes s' 3) = 0x61616161
        \<and> oi_nlink (inodes s' 3) = 0x61616162
    | None \<Rightarrow> False)
   \<and> oi_size (inodes img_dir_free2 3) = 1024
   \<and> oi_ftype (inodes img_dir_free2 3) = OSPFS_FTYPE_DIR lab_h
   \<and> oi_nlink (inodes img_dir_free2 3) = 1"
proof -
  let ?root = "[47, 114] :: 8 word list"
  let ?path = "47 # replicate 54 97 @ 98 # replicate 4 97 :: 8 word list"
  from long_target_symlink obtain s' where all:
    "ospfs_symlink lab_h img_dir_free2 True 3 (bytes_of ''s'')
      (bytes_of (''root?/r:/'' @ replicate 59 CHR ''a'')) = Some (OK, s')
    \<and> os_ninodes s' = 64 \<and> os_nblocks s' = 64 \<and> os_firstinob s' = 3
    \<and> map (inode_table_get s') [128..<132] = [65, 0, 0, 0]
    \<and> map (inode_table_get s') [140..<206]
      = [63, 47, 114, 0, 58, 47] @ replicate 54 97 @ 98 # replicate 4 97 @ [0]
    \<and> map (inode_table_get s') [192..<204] = replicate 8 97 @ [98, 97, 97, 97]"
    by (rule exE)
  note ok = all [THEN conjunct1]
  note fr = all [THEN conjunct2, THEN conjunct1]
    all [THEN conjunct2, THEN conjunct2, THEN conjunct1]
    all [THEN conjunct2, THEN conjunct2, THEN conjunct2, THEN conjunct1]
  note sz = all [THEN conjunct2, THEN conjunct2, THEN conjunct2, THEN conjunct2, THEN conjunct1]
  note tab = all [THEN conjunct2, THEN conjunct2, THEN conjunct2, THEN conjunct2,
    THEN conjunct2, THEN conjunct1]
  note dir = all [THEN conjunct2, THEN conjunct2, THEN conjunct2, THEN conjunct2,
    THEN conjunct2, THEN conjunct2]
  have ino: "ospfs_inode s' 2 = Some 2" by (simp add: ospfs_inode_def fr)
  have t1: "map (inode_table_get s') [140..<140 + length ([63] @ (?root @ [0]) @ 58 # ?path @ [0])]
      = [63] @ (?root @ [0]) @ 58 # ?path @ [0]"
    using tab by simp
  have t2: "map (inode_table_get s') [140..<140 + length (([63] @ ?root @ [0, 58]) @ ?path @ [0])]
      = ([63] @ ?root @ [0, 58]) @ ?path @ [0]"
    using tab by simp
  have troot: "map (inode_table_get s') [141..<141 + (length ?root + 1)] = ?root @ [0]"
    using table_take [OF table_drop [OF t1]] by simp
  have tpath: "map (inode_table_get s') [145..<145 + (length ?path + 1)] = ?path @ [0]"
    using table_drop [OF t2] by simp
  have thead: "map (inode_table_get s') [140..<140 + (length ([63, 47, 114] :: 8 word list) + 1)]
      = [63, 47, 114] @ [0]"
    using table_take [of "inode_table_get s'" 140 "[63, 47, 114, 0]" "58 # ?path @ [0]"] tab
    by simp
  have b0: "inode_table_get s' 140 = 63"
    using thead by simp
  have b4: "inode_table_get s' 144 = 58"
    using table_take [of "inode_table_get s'" 140 "[63, 47, 114, 0, 58]" "?path @ [0]"] tab
    by simp
  have img: "ospfs_block (os_firstinob s') = 3072" "unat (os_nblocks s') * unat OSPFS_BLKSIZE = 65536"
    by (simp_all add: fr ospfs_block_def hdr_defs)
  have l0: "strlen_from s' 140 = Some 3"
    using strlen_from_table(1) [OF thead] by (simp add: img)
  have croot: "c_string_from s' 141 = Some ?root"
    using strlen_from_table(2) [OF troot] by (simp add: img)
  have cpath: "c_string_from s' 145 = Some ?path"
    using strlen_from_table(2) [OF tpath] by (simp add: img)
  have size2: "oi_size (inodes s' 2) = 65"
  proof (rule inode_size_bytes)
    show "2 < unat (os_ninodes s')" by (simp add: fr)
    fix j :: nat assume "j < 4"
    then consider "j = 0" | "j = 1" | "j = 2" | "j = 3" by arith
    then show "inode_table_get s' (2 * OSPFS_INODESIZE + j) = word_byte 65 j"
      using table_nth [of "inode_table_get s'" 128 "[65, 0, 0, 0]" j] sz
      by cases (simp_all add: inodesize word_byte_def drop_bit_eq_div)
  qed
  have qc: "(of_nat (of_char CHR ''?'') :: 8 word) = 63" "(of_nat (of_char CHR '':'') :: 8 word) = 58"
    by simp_all
  have f0: "ospfs_follow_link s' 2 0 = Inr 1"
    by (simp add: ospfs_follow_link_def ino symlink_addr_def inodesize b0 qc)
  have f1: "ospfs_follow_link s' 2 1000 = Inr 5"
    by (simp add: ospfs_follow_link_def ino symlink_addr_def inodesize b0 b4 qc l0 size2
        word_le_nat_alt)
  have r0: "followed_link s' 2 0 = Inr (bytes_of ''/r'')"
    by (simp add: followed_link_def f0 symlink_addr_def inodesize croot bytes_of_def)
  have r1: "followed_link s' 2 1000
      = Inr (bytes_of (''/'' @ replicate 54 CHR ''a'' @ ''b'' @ replicate 4 CHR ''a''))"
    by (simp add: followed_link_def f1 symlink_addr_def inodesize cpath bytes_of_def)
  have d: "inode_table_get s' (192 + j) = (replicate 8 97 @ [98, 97, 97, 97]) ! j" if "j < 12" for j
    using table_nth [of "inode_table_get s'" 192 "replicate 8 97 @ [98, 97, 97, 97]" j] dir that
    by simp
  have e3: "(3 :: nat) < unat (os_ninodes s')" by (simp add: fr)
  have dsz: "oi_size (inodes s' 3) = 0x61616161"
    unfolding inode_fields_bytes(1) [OF e3]
    using d [of 0] d [of 1] d [of 2] d [of 3]
    by (simp add: get32_def inodesize nth_append)
  have dft: "oi_ftype (inodes s' 3) = 0x61616161"
    unfolding inode_fields_bytes(2) [OF e3]
    using d [of 4] d [of 5] d [of 6] d [of 7]
    by (simp add: get32_def inodesize nth_append)
  have dnl: "oi_nlink (inodes s' 3) = 0x61616162"
    unfolding inode_fields_bytes(3) [OF e3]
    using d [of 8] d [of 9] d [of 10] d [of 11]
    by (simp add: get32_def inodesize nth_append)
  have dir0: "oi_size (inodes img_dir_free2 3) = 1024
      \<and> oi_ftype (inodes img_dir_free2 3) = OSPFS_FTYPE_DIR lab_h
      \<and> oi_nlink (inodes img_dir_free2 3) = 1"
    by (simp add: img_dir_free2_simps dir_inode_simps lab_h_simps)
  show ?thesis
    by (simp only: ok option.case prod.case r0 r1 dsz dft dnl dir0 simp_thms)
qed

end
